theory Spec2Isabelle
  imports Complex_Main "HOL-Library.Log_Nat"
begin

section \<open>Exceptions\<close>

text \<open>
  Every \<^verbatim>\<open>raise\<close> of the module and of the library calls it makes is a value of
  \<open>exn\<close>; a fallible function returns \<open>exn + 'a\<close> with \<open>Inl\<close> for the raised exception.
  \<open>RequestException\<close> stands for the exceptions of the HTTP library
  (\<^verbatim>\<open>requests.exceptions.RequestException\<close> and its subclasses), \<open>RemoteRequestFailed\<close>
  for what \<^verbatim>\<open>check_response\<close> raises.  \<open>InvalidIdentifier\<close> and
  \<open>AuthenticationBootstrapFailed\<close> are the typed conditions the specification names;
  no function of \<^verbatim>\<open>spotify_api.py\<close> raises them.
\<close>

datatype exn =
    ValueError
  | TypeError
  | KeyError
  | AttributeError
  | JSONDecodeError
  | RequestException
  | RemoteRequestFailed int
  | InvalidIdentifier
  | AuthenticationBootstrapFailed

section \<open>Python and library primitives used by the ID transcoder\<close>

subsection \<open>Strings\<close>

text \<open>
  A Python \<^verbatim>\<open>str\<close> is modelled as a HOL \<open>string\<close>, one \<open>char\<close> per code point, so
  the model covers the strings whose code points are below 256.
\<close>

text \<open>\<^verbatim>\<open>s.index(ch)\<close> for a single character: position of the first occurrence.\<close>

fun index_of :: "'a \<Rightarrow> 'a list \<Rightarrow> nat option" where
  "index_of c [] = None"
| "index_of c (x # xs) = (if x = c then Some 0 else map_option Suc (index_of c xs))"

text \<open>
  \<^verbatim>\<open>s.zfill(width)\<close>: pad with \<^verbatim>\<open>'0'\<close> on the left up to \<open>width\<close>, after a leading
  sign when there is one; a string already that long is returned as it is.
\<close>

definition zfill :: "string \<Rightarrow> nat \<Rightarrow> string" where
  "zfill s width =
     (if width \<le> length s then s
      else (case s of
              [] \<Rightarrow> replicate width (CHR ''0'')
            | c # cs \<Rightarrow>
                if c = CHR ''+'' \<or> c = CHR ''-''
                then c # replicate (width - length s) (CHR ''0'') @ cs
                else replicate (width - length s) (CHR ''0'') @ s))"

subsection \<open>\<^verbatim>\<open>hex\<close>\<close>

definition hex_digits :: string where
  "hex_digits = ''0123456789abcdef''"

function hex_loop :: "int \<Rightarrow> string \<Rightarrow> string" where
  "hex_loop n chs =
     (if n > 0 then hex_loop (n div 16) (hex_digits ! nat (n mod 16) # chs) else chs)"
  by pat_completeness auto
termination
  by (relation "measure (\<lambda>(n, chs). nat n)") auto

declare hex_loop.simps [simp del]

text \<open>\<^verbatim>\<open>hex(n)\<close>: \<^verbatim>\<open>0x\<close> and the lowercase digits without leading zeros, \<^verbatim>\<open>-0x...\<close> below zero.\<close>

definition py_hex :: "int \<Rightarrow> string" where
  "py_hex n =
     (let chs = hex_loop \<bar>n\<bar> []
      in (if n < 0 then ''-'' else []) @ ''0x'' @ (if chs = [] then ''0'' else chs))"

subsection \<open>\<^verbatim>\<open>int(s, base)\<close>\<close>

text \<open>
  The integer parser of CPython (\<^verbatim>\<open>PyLong_FromString\<close>) for the bases 10 and 16:
  surrounding whitespace, one optional sign, for base 16 an optional \<^verbatim>\<open>0x\<close> or
  \<^verbatim>\<open>0X\<close> (after which one underscore may follow), then digits with single underscores
  between them.  Anything else is a \<^verbatim>\<open>ValueError\<close>.  Whitespace is what the
  interpreter takes for it below code point 256.  The limit that newer interpreters put
  on the length of a decimal string (4300 digits unless configured otherwise) is not
  modelled; it does not concern base 16.
\<close>

definition py_isspace :: "char \<Rightarrow> bool" where
  "py_isspace c \<longleftrightarrow>
     c \<in> set [CHR 0x09, CHR 0x0A, CHR 0x0B, CHR 0x0C, CHR 0x0D, CHR 0x20, CHR 0x85, CHR 0xA0]"

text \<open>The table \<^verbatim>\<open>_PyLong_DigitValue\<close>: 37 for a character that is no digit in any base.\<close>

definition digit_value :: "char \<Rightarrow> nat" where
  "digit_value c =
     (case index_of c ''0123456789abcdefghijklmnopqrstuvwxyz'' of
        Some i \<Rightarrow> i
      | None \<Rightarrow> (case index_of c ''ABCDEFGHIJKLMNOPQRSTUVWXYZ'' of
                   Some i \<Rightarrow> 10 + i
                 | None \<Rightarrow> 37))"

definition skip_sign :: "string \<Rightarrow> int \<times> string" where
  "skip_sign s =
     (case s of
        [] \<Rightarrow> (1, s)
      | c # cs \<Rightarrow> if c = CHR ''+'' then (1, cs) else if c = CHR ''-'' then (- 1, cs) else (1, s))"

definition skip_prefix :: "nat \<Rightarrow> string \<Rightarrow> string" where
  "skip_prefix base s =
     (case s of
        c0 # c1 # cs \<Rightarrow>
          if base = 16 \<and> c0 = CHR ''0'' \<and> (c1 = CHR ''x'' \<or> c1 = CHR ''X'')
          then (case cs of
                  [] \<Rightarrow> cs
                | u # cs' \<Rightarrow> if u = CHR ''_'' then cs' else cs)
          else s
      | _ \<Rightarrow> s)"

text \<open>
  The scan over digits and underscores: \<open>prev\<close> says that the previous character was an
  underscore, \<open>v\<close> is the value of the digits read so far, \<open>k\<close> their number.  The result
  is the value, the number of digits and the unread rest; \<open>None\<close> for a doubled or
  trailing underscore.
\<close>

fun scan_digits :: "nat \<Rightarrow> bool \<Rightarrow> string \<Rightarrow> int \<Rightarrow> nat \<Rightarrow> (int \<times> nat \<times> string) option" where
  "scan_digits base prev [] v k = (if prev then None else Some (v, k, []))"
| "scan_digits base prev (c # cs) v k =
     (if c = CHR ''_'' then (if prev then None else scan_digits base True cs v k)
      else if digit_value c < base
        then scan_digits base False cs (v * int base + int (digit_value c)) (Suc k)
      else if prev then None else Some (v, k, c # cs))"

definition py_int :: "string \<Rightarrow> nat \<Rightarrow> exn + int" where
  "py_int s base =
     (let (sign, s1) = skip_sign (dropWhile py_isspace s);
          s2 = skip_prefix base s1
      in if s2 \<noteq> [] \<and> hd s2 = CHR ''_'' then Inl ValueError
         else (case scan_digits base False s2 0 0 of
                 None \<Rightarrow> Inl ValueError
               | Some (v, k, rest) \<Rightarrow>
                   if k = 0 \<or> dropWhile py_isspace rest \<noteq> [] then Inl ValueError
                   else Inr (sign * v)))"

subsection \<open>The \<^verbatim>\<open>base62\<close> package\<close>

text \<open>
  \<^verbatim>\<open>base62.decode\<close> and \<^verbatim>\<open>base62.encode\<close> of the package the module imports
  (\<^verbatim>\<open>pybase62\<close>, release 1.0): positional notation in base 62 over the given
  character set.  \<^verbatim>\<open>decode\<close> adds up
  \<^verbatim>\<open>_value(x) * BASE ** (l - (i + 1))\<close> over the characters and raises
  \<^verbatim>\<open>ValueError\<close> at the first character that is not in the set; \<^verbatim>\<open>encode\<close> divides by
  \<^verbatim>\<open>BASE\<close> while \<^verbatim>\<open>n > 0\<close> and returns \<^verbatim>\<open>"0"\<close> when no digit was produced.
\<close>

definition BASE :: int where
  "BASE = 62"

definition CHARSET_INVERTED :: string where
  "CHARSET_INVERTED = ''0123456789abcdefghijklmnopqrstuvwxyzABCDEFGHIJKLMNOPQRSTUVWXYZ''"

definition base62_value :: "char \<Rightarrow> string \<Rightarrow> exn + int" where
  "base62_value ch charset =
     (case index_of ch charset of None \<Rightarrow> Inl ValueError | Some i \<Rightarrow> Inr (int i))"

fun decode_loop :: "string \<Rightarrow> nat \<Rightarrow> string \<Rightarrow> nat \<Rightarrow> int \<Rightarrow> exn + int" where
  "decode_loop charset l [] i v = Inr v"
| "decode_loop charset l (x # xs) i v =
     (case base62_value x charset of
        Inl e \<Rightarrow> Inl e
      | Inr d \<Rightarrow> decode_loop charset l xs (i + 1) (v + d * BASE ^ (l - (i + 1))))"

definition base62_decode :: "string \<Rightarrow> string \<Rightarrow> exn + int" where
  "base62_decode encoded charset = decode_loop charset (length encoded) encoded 0 0"

function encode_loop :: "string \<Rightarrow> int \<Rightarrow> string \<Rightarrow> string" where
  "encode_loop charset n chs =
     (if n > 0 then encode_loop charset (n div BASE) (charset ! nat (n mod BASE) # chs)
      else chs)"
  by pat_completeness auto
termination
  by (relation "measure (\<lambda>(charset, n, chs). nat n)") (auto simp: BASE_def)

declare encode_loop.simps [simp del]

definition base62_encode :: "int \<Rightarrow> string \<Rightarrow> string" where
  "base62_encode n charset =
     (let chs = encode_loop charset n [] in if chs = [] then ''0'' else chs)"

section \<open>The ID transcoder\<close>

text \<open>
  \<^verbatim>\<open>media_id_to_gid\<close> (the specification's \<open>to_internal\<close>) and \<^verbatim>\<open>gid_to_media_id\<close>
  (\<open>to_public\<close>), lines 103 to 109.
\<close>

definition media_id_to_gid :: "string \<Rightarrow> exn + string" where
  "media_id_to_gid media_id =
     (case base62_decode media_id CHARSET_INVERTED of
        Inl e \<Rightarrow> Inl e
      | Inr v \<Rightarrow> Inr (zfill (drop 2 (py_hex v)) 32))"

definition gid_to_media_id :: "string \<Rightarrow> exn + string" where
  "gid_to_media_id gid =
     (case py_int gid 16 of
        Inl e \<Rightarrow> Inl e
      | Inr n \<Rightarrow> Inr (zfill (base62_encode n CHARSET_INVERTED) 22))"

text \<open>Sequencing of two fallible steps: the first exception raised is the result.\<close>

definition bind_exn :: "exn + 'a \<Rightarrow> ('a \<Rightarrow> exn + 'b) \<Rightarrow> exn + 'b" where
  "bind_exn r f = (case r of Inl e \<Rightarrow> Inl e | Inr x \<Rightarrow> f x)"

section \<open>Positional notation\<close>

text \<open>
  The vocabulary in which the loops above are described: \<open>val_of b ds\<close> is the number
  with the digits \<open>ds\<close> (most significant first) in base \<open>b\<close>, \<open>digits_of b n\<close> the
  digits of \<open>n\<close> without leading zeros, \<open>idx cs c\<close> the digit a character stands for in
  the character set \<open>cs\<close>, and \<open>enc b cs n\<close> the numeral of \<open>n\<close> written with \<open>cs\<close>.
  \<open>literal_char base c\<close> holds of the characters that can occur at all in a string
  \<^verbatim>\<open>int(s, base)\<close> accepts.
\<close>

fun val_of :: "nat \<Rightarrow> nat list \<Rightarrow> nat" where
  "val_of b [] = 0"
| "val_of b (d # ds) = d * b ^ length ds + val_of b ds"

function digits_of :: "nat \<Rightarrow> nat \<Rightarrow> nat list" where
  "digits_of b n = (if n = 0 \<or> b < 2 then [] else digits_of b (n div b) @ [n mod b])"
  by pat_completeness auto
termination
  by (relation "measure (\<lambda>(b, n). n)") auto

declare digits_of.simps [simp del]

definition idx :: "string \<Rightarrow> char \<Rightarrow> nat" where
  "idx cs c = (case index_of c cs of Some i \<Rightarrow> i | None \<Rightarrow> 0)"

definition enc :: "nat \<Rightarrow> string \<Rightarrow> nat \<Rightarrow> string" where
  "enc b cs n = (let chs = map (\<lambda>d. cs ! d) (digits_of b n) in if chs = [] then ''0'' else chs)"

definition literal_char :: "nat \<Rightarrow> char \<Rightarrow> bool" where
  "literal_char base c \<longleftrightarrow>
     py_isspace c \<or> c = CHR ''+'' \<or> c = CHR ''-'' \<or> c = CHR ''_'' \<or> c = CHR ''x'' \<or> c = CHR ''X''
     \<or> digit_value c < base"


section \<open>JSON values and the Python operations on them\<close>

text \<open>
  What \<^verbatim>\<open>json.loads\<close> and \<^verbatim>\<open>response.json()\<close> return: \<^verbatim>\<open>None\<close>, booleans,
  integers, strings, lists and dictionaries (as association lists in insertion order,
  looked up from the front).  Numbers with a fraction or an exponent are not
  represented.
\<close>

datatype json =
    JNull
  | JBool bool
  | JInt int
  | JStr string
  | JArr "json list"
  | JObj "(string \<times> json) list"

text \<open>
  \<^verbatim>\<open>v[key]\<close> for a string key: a missing key of a dictionary is a \<^verbatim>\<open>KeyError\<close>,
  subscripting anything else with a string is a \<^verbatim>\<open>TypeError\<close>.
\<close>

fun getitem :: "json \<Rightarrow> string \<Rightarrow> exn + json" where
  "getitem (JObj kvs) key = (case map_of kvs key of None \<Rightarrow> Inl KeyError | Some v \<Rightarrow> Inr v)"
| "getitem v key = Inl TypeError"

text \<open>\<^verbatim>\<open>d[key] = v\<close> on a dictionary: an existing key keeps its position.\<close>

fun setitem :: "(string \<times> json) list \<Rightarrow> string \<Rightarrow> json \<Rightarrow> (string \<times> json) list" where
  "setitem [] key v = [(key, v)]"
| "setitem ((k, w) # kvs) key v =
     (if k = key then (k, v) # kvs else (k, w) # setitem kvs key v)"

text \<open>\<^verbatim>\<open>int(v)\<close>.\<close>

fun py_int_of :: "json \<Rightarrow> exn + int" where
  "py_int_of (JInt n) = Inr n"
| "py_int_of (JBool b) = Inr (if b then 1 else 0)"
| "py_int_of (JStr s) = py_int s 10"
| "py_int_of v = Inl TypeError"

text \<open>
  \<^verbatim>\<open>for item in v\<close>: a list yields its elements, a dictionary its keys, a string its
  characters; the other values are not iterable.
\<close>

fun py_iter :: "json \<Rightarrow> exn + json list" where
  "py_iter (JArr xs) = Inr xs"
| "py_iter (JObj kvs) = Inr (map (\<lambda>(k, v). JStr k) kvs)"
| "py_iter (JStr s) = Inr (map (\<lambda>c. JStr [c]) s)"
| "py_iter v = Inl TypeError"

text \<open>\<^verbatim>\<open>v.extend\<close>: only a list has the attribute.\<close>

fun py_extend :: "json \<Rightarrow> json list \<Rightarrow> exn + json" where
  "py_extend (JArr xs) ys = Inr (JArr (xs @ ys))"
| "py_extend v ys = Inl AttributeError"

text \<open>
  A replacement field of an f-string: a string is inserted as it is, any other value
  through its \<^verbatim>\<open>repr\<close>, which the environment supplies.
\<close>

fun py_format :: "(json \<Rightarrow> string) \<Rightarrow> json \<Rightarrow> string" where
  "py_format repr (JStr s) = s"
| "py_format repr v = repr v"

section \<open>Regular expression search\<close>

text \<open>
  \<^verbatim>\<open>re.search(OPEN + "(.+?)" + CLOSE, text)\<close> for literal \<open>OPEN\<close> and \<open>CLOSE\<close>, and the
  \<^verbatim>\<open>group(1)\<close> of the match: start positions are tried from the left; after \<open>OPEN\<close>
  the lazy group takes one character, then one more at a time while \<open>CLOSE\<close> does not
  follow; the dot does not match a newline.  \<open>None\<close> is \<^verbatim>\<open>re.search\<close> returning
  \<^verbatim>\<open>None\<close>.
\<close>

fun startswith :: "string \<Rightarrow> string \<Rightarrow> bool" where
  "startswith s [] = True"
| "startswith [] (p # ps) = False"
| "startswith (c # cs) (p # ps) = (c = p \<and> startswith cs ps)"

fun lazy_group :: "string \<Rightarrow> string \<Rightarrow> string option" where
  "lazy_group close [] = None"
| "lazy_group close (c # cs) =
     (if c = CHR 0x0A then None
      else if startswith cs close then Some [c]
      else map_option ((#) c) (lazy_group close cs))"

fun re_search :: "string \<Rightarrow> string \<Rightarrow> string \<Rightarrow> string option" where
  "re_search opn close [] = None"
| "re_search opn close (c # cs) =
     (case (if startswith (c # cs) opn then lazy_group close (drop (length opn) (c # cs))
            else None) of
        Some g \<Rightarrow> Some g
      | None \<Rightarrow> re_search opn close cs)"

definition SESSION_OPEN :: string where
  \<open>SESSION_OPEN = ''<script id="session" data-testid="session" type="application/json">''\<close>

definition CONFIG_OPEN :: string where
  \<open>CONFIG_OPEN = ''<script id="config" data-testid="config" type="application/json">''\<close>

definition SCRIPT_CLOSE :: string where
  \<open>SCRIPT_CLOSE = ''</script>''\<close>

section \<open>Floating-point numbers\<close>

text \<open>
  A Python \<^verbatim>\<open>float\<close> is a number of the binary64 format: a real number, an infinity
  or a NaN (the sign of a zero is not represented; no comparison depends on it).
  \<open>round_binary64 x\<close> is the float that an arithmetic operation with the exact result
  \<open>x\<close> delivers.  The unit in the last place of \<open>x\<close> is \<open>2\<close> to the power
  \<open>ulp_exponent x\<close>: it leaves \<open>x\<close> 53 significant bits and is never below
  \<open>2 ^ - 1074\<close>.  \<open>x\<close> is rounded to the nearest multiple of this unit, a tie to the
  even multiple, and a result of magnitude \<open>2 ^ 1024\<close> or more is an infinity.
\<close>

datatype float = Float real | PosInf | NegInf | NaN

definition round_half_even :: "real \<Rightarrow> int" where
  "round_half_even x =
     (let n = \<lfloor>x\<rfloor>; d = x - of_int n
      in if d < 1 / 2 then n else if 1 / 2 < d then n + 1 else if even n then n else n + 1)"

definition ulp_exponent :: "real \<Rightarrow> int" where
  "ulp_exponent x = max (bitlen \<lfloor>\<bar>x\<bar> * 2 ^ 1074\<rfloor> - 53) 0 - 1074"

definition round_to_ulp :: "real \<Rightarrow> real" where
  "round_to_ulp x =
     (let q = ulp_exponent x in of_int (round_half_even (x / 2 powi q)) * 2 powi q)"

definition round_binary64 :: "real \<Rightarrow> float" where
  "round_binary64 x =
     (let y = round_to_ulp x
      in if 2 ^ 1024 \<le> y then PosInf else if y \<le> - (2 ^ 1024) then NegInf else Float y)"

text \<open>
  \<^verbatim>\<open>a * b\<close> for two floats, and \<^verbatim>\<open>a < n\<close> for a float and an integer, which Python
  compares by their exact values.
\<close>

fun float_sign :: "float \<Rightarrow> int" where
  "float_sign (Float x) = (if x < 0 then - 1 else if x = 0 then 0 else 1)"
| "float_sign PosInf = 1"
| "float_sign NegInf = - 1"
| "float_sign NaN = 0"

fun float_mul :: "float \<Rightarrow> float \<Rightarrow> float" where
  "float_mul (Float x) (Float y) = round_binary64 (x * y)"
| "float_mul a b =
     (if a = NaN \<or> b = NaN \<or> float_sign a * float_sign b = 0 then NaN
      else if 0 < float_sign a * float_sign b then PosInf else NegInf)"

fun float_lt_int :: "float \<Rightarrow> int \<Rightarrow> bool" where
  "float_lt_int (Float x) n = (x < of_int n)"
| "float_lt_int PosInf n = False"
| "float_lt_int NegInf n = True"
| "float_lt_int NaN n = False"

section \<open>HTTP exchanges, the environment and the state\<close>

datatype http_method = GET | POST

type_synonym cookie = "string \<times> string \<times> string"

text \<open>
  A request as the session sends it: with the session's headers and cookies of that
  moment.
\<close>

record request =
  http_method :: http_method
  url :: string
  req_headers :: "(string \<times> string) list"
  req_cookies :: "cookie list"
  req_body :: string

record response =
  status_code :: int
  resp_text :: string

text \<open>
  What the world outside the module does.  \<open>remote t rq\<close> is the outcome of sending \<open>rq\<close>
  at time \<open>t\<close>: a response or an exception of the HTTP library, the time the exchange
  took, and what the exchange does to the cookie jar of the session.  A
  \<^verbatim>\<open>requests.Session\<close> takes the cookies of every response it receives into its jar:
  \<open>stored rp jar\<close> is the jar after the exchange \<open>rp\<close>, started with \<open>jar\<close>; a
  cookie the server sets replaces the one of the same name, domain and path or is added,
  a cookie it expires is removed, and an exchange in which the server sets no cookie
  leaves the jar as it is.  \<open>json_loads\<close> is \<^verbatim>\<open>json.loads\<close> (\<open>None\<close>: the text is no
  JSON document) and \<open>py_repr\<close> the \<^verbatim>\<open>repr\<close> of a value.
\<close>

record reply =
  outcome :: "exn + response"
  took :: real
  stored :: "cookie list \<Rightarrow> cookie list"

record env =
  remote :: "real \<Rightarrow> request \<Rightarrow> reply"
  json_loads :: "string \<Rightarrow> json option"
  py_repr :: "json \<Rightarrow> string"

text \<open>
  The ways \<^verbatim>\<open>get_album\<close> can be called: the identifier and the flag each positionally
  or by keyword.  The memoisation decorator keys its cache on the call as written.
\<close>

datatype call =
    Pos1 string
  | Pos2 string bool
  | Pos1Kw string bool
  | Kw1 string
  | Kw2 string bool
  | Kw2' bool string

text \<open>
  The state: the session of the \<^verbatim>\<open>SpotifyApi\<close> object (cookies and headers), its
  attributes \<^verbatim>\<open>session_info\<close> and \<^verbatim>\<open>config_info\<close>, the cache of \<^verbatim>\<open>get_album\<close>
  (most recently used first), the clock (the time in seconds since the epoch), and the
  requests sent so far, each with the time at which it was sent.
\<close>

record state =
  cookies :: "cookie list"
  headers :: "(string \<times> string) list"
  session_info :: json
  config_info :: json
  cache :: "(call \<times> json) list"
  clock :: real
  sent :: "(real \<times> request) list"

text \<open>Running a step on the result of the previous one; an exception ends the run.\<close>

definition bind_io ::
  "(exn + 'a) \<times> state \<Rightarrow> ('a \<Rightarrow> state \<Rightarrow> (exn + 'b) \<times> state) \<Rightarrow> (exn + 'b) \<times> state" where
  "bind_io r f = (case r of (Inl e, s) \<Rightarrow> (Inl e, s) | (Inr x, s) \<Rightarrow> f x s)"

subsection \<open>The header dictionary\<close>

text \<open>
  The session's headers are a case-insensitive dictionary: an entry is found by the
  lowercase form of its name, and setting a header replaces the entry in place.
\<close>

definition lower_char :: "char \<Rightarrow> char" where
  "lower_char c =
     (let n = (of_char c :: nat)
      in if (65 \<le> n \<and> n \<le> 90) \<or> (192 \<le> n \<and> n \<le> 222 \<and> n \<noteq> 215) then char_of (n + 32) else c)"

definition lower :: "string \<Rightarrow> string" where
  "lower s = map lower_char s"

fun hdr_update :: "(string \<times> string) list \<Rightarrow> string \<Rightarrow> string \<Rightarrow> (string \<times> string) list" where
  "hdr_update [] k v = [(k, v)]"
| "hdr_update ((k', v') # hs) k v =
     (if lower k' = lower k then (k, v) # hs else (k', v') # hdr_update hs k v)"

fun hdr_get :: "(string \<times> string) list \<Rightarrow> string \<Rightarrow> string option" where
  "hdr_get [] k = None"
| "hdr_get ((k', v') # hs) k = (if lower k' = lower k then Some v' else hdr_get hs k)"

section \<open>The response classifier\<close>

text \<open>
  Modelled from the spec: \<^verbatim>\<open>check_response\<close> is imported from \<^verbatim>\<open>votify/utils.py\<close>,
  which is not among the sources.  Section 4.2 of the specification: it raises
  \<open>RemoteRequestFailed\<close> with the status code whenever the status of the response is not
  in the success range, and lets a success response pass untouched.  The success range
  is taken to be 200 to 299.
\<close>

definition check_response :: "response \<Rightarrow> exn + unit" where
  "check_response response =
     (if 200 \<le> status_code response \<and> status_code response < 300 then Inr ()
      else Inl (RemoteRequestFailed (status_code response)))"

section \<open>The session manager\<close>

definition SPOTIFY_HOME_PAGE_URL :: string where
  "SPOTIFY_HOME_PAGE_URL = ''https://open.spotify.com/''"

definition EXTEND_TRACK_COLLECTION_WAIT_TIME :: real where
  "EXTEND_TRACK_COLLECTION_WAIT_TIME = 0.5"

text \<open>
  \<^verbatim>\<open>self.session.get(url)\<close> and \<^verbatim>\<open>self.session.post(url, data)\<close>: the request carries
  the headers and cookies the session has at that moment; the session takes the cookies
  of the exchange into its jar; the exchange is recorded and the clock advances by the
  time it took.
\<close>

definition session_request ::
  "env \<Rightarrow> http_method \<Rightarrow> string \<Rightarrow> string \<Rightarrow> state \<Rightarrow> (exn + response) \<times> state" where
  "session_request env m u b s =
     (let rq = \<lparr>http_method = m, url = u, req_headers = headers s,
                req_cookies = cookies s, req_body = b\<rparr>;
          rp = remote env (clock s) rq
      in (outcome rp,
          s\<lparr>cookies := stored rp (cookies s), clock := clock s + took rp,
            sent := sent s @ [(clock s, rq)]\<rparr>))"

definition session_get :: "env \<Rightarrow> string \<Rightarrow> state \<Rightarrow> (exn + response) \<times> state" where
  "session_get env u s = session_request env GET u [] s"

text \<open>\<^verbatim>\<open>response.json()\<close>.\<close>

definition response_json :: "env \<Rightarrow> response \<Rightarrow> exn + json" where
  "response_json env response =
     (case json_loads env (resp_text response) of
        None \<Rightarrow> Inl JSONDecodeError
      | Some v \<Rightarrow> Inr v)"

text \<open>\<^verbatim>\<open>get_home_page\<close>, lines 96 to 101.\<close>

definition get_home_page :: "env \<Rightarrow> state \<Rightarrow> (exn + string) \<times> state" where
  "get_home_page env s =
     bind_io (session_get env SPOTIFY_HOME_PAGE_URL s) (\<lambda>response s.
     bind_io (check_response response, s) (\<lambda>_ s.
     (Inr (resp_text response), s)))"

text \<open>
  \<^verbatim>\<open>json.loads(re.search(...).group(1))\<close>: \<^verbatim>\<open>group\<close> on the \<^verbatim>\<open>None\<close> of a failed
  search is an \<^verbatim>\<open>AttributeError\<close>.
\<close>

definition embedded_json :: "env \<Rightarrow> string \<Rightarrow> string \<Rightarrow> exn + json" where
  "embedded_json env opn home_page =
     (case re_search opn SCRIPT_CLOSE home_page of
        None \<Rightarrow> Inl AttributeError
      | Some g \<Rightarrow> (case json_loads env g of None \<Rightarrow> Inl JSONDecodeError | Some v \<Rightarrow> Inr v))"

text \<open>
  \<^verbatim>\<open>_set_session_auth\<close>, lines 67 to 85.  The two attributes are assigned one after
  the other, so an exception in the second search leaves the first assignment done.
\<close>

definition set_session_auth :: "env \<Rightarrow> state \<Rightarrow> (exn + unit) \<times> state" where
  "set_session_auth env s =
     bind_io (get_home_page env s) (\<lambda>home_page s.
     bind_io (embedded_json env SESSION_OPEN home_page, s) (\<lambda>v s.
     bind_io (Inr (), s\<lparr>session_info := v\<rparr>) (\<lambda>_ s.
     bind_io (embedded_json env CONFIG_OPEN home_page, s) (\<lambda>v s.
     bind_io (Inr (), s\<lparr>config_info := v\<rparr>) (\<lambda>_ s.
     bind_io (getitem (session_info s) ''accessToken'', s) (\<lambda>token s.
     (Inr (), s\<lparr>headers :=
        hdr_update (headers s) ''Authorization'' (''Bearer '' @ py_format (py_repr env) token)\<rparr>)))))))"

text \<open>
  \<^verbatim>\<open>int(self.session_info["accessTokenExpirationTimestampMs"])\<close>, the local
  \<^verbatim>\<open>timestamp_session_expire\<close> of \<^verbatim>\<open>_refresh_session_auth\<close>.
\<close>

definition timestamp_session_expire :: "state \<Rightarrow> exn + int" where
  "timestamp_session_expire s =
     bind_exn (getitem (session_info s) ''accessTokenExpirationTimestampMs'') py_int_of"

text \<open>
  \<^verbatim>\<open>time.time()\<close>: the clock as a float.  \<^verbatim>\<open>time.time() * 1000\<close>, the local
  \<^verbatim>\<open>timestamp_now\<close> of \<^verbatim>\<open>_refresh_session_auth\<close>, is a product of floats; the
  integer 1000 is converted without loss.
\<close>

definition time_time :: "state \<Rightarrow> float" where
  "time_time s = round_binary64 (clock s)"

definition timestamp_now :: "state \<Rightarrow> float" where
  "timestamp_now s = float_mul (time_time s) (Float 1000)"

text \<open>\<^verbatim>\<open>_refresh_session_auth\<close>, lines 87 to 94: the specification's \<open>ensure_valid\<close>.\<close>

definition refresh_session_auth :: "env \<Rightarrow> state \<Rightarrow> (exn + unit) \<times> state" where
  "refresh_session_auth env s =
     bind_io (timestamp_session_expire s, s) (\<lambda>timestamp_session_expire s.
       if float_lt_int (timestamp_now s) timestamp_session_expire then (Inr (), s)
       else set_session_auth env s)"

section \<open>Resource fetchers\<close>

definition LYRICS_API_URL :: "string \<Rightarrow> string" where
  "LYRICS_API_URL track_id = ''https://spclient.wg.spotify.com/color-lyrics/v2/track/'' @ track_id"

definition METADATA_API_URL :: "string \<Rightarrow> string \<Rightarrow> string" where
  "METADATA_API_URL type track_id = ''https://api.spotify.com/v1/'' @ type @ ''/'' @ track_id"

definition GID_METADATA_API_URL :: "string \<Rightarrow> string \<Rightarrow> string" where
  "GID_METADATA_API_URL gid media_type =
     ''https://spclient.wg.spotify.com/metadata/4/'' @ media_type @ ''/'' @ gid
       @ ''?market=from_token''"

text \<open>\<^verbatim>\<open>get_gid_metadata\<close>, lines 111 to 121.\<close>

definition get_gid_metadata :: "env \<Rightarrow> string \<Rightarrow> string \<Rightarrow> state \<Rightarrow> (exn + json) \<times> state" where
  "get_gid_metadata env gid media_type s =
     bind_io (refresh_session_auth env s) (\<lambda>_ s.
     bind_io (session_get env (GID_METADATA_API_URL gid media_type) s) (\<lambda>response s.
     bind_io (check_response response, s) (\<lambda>_ s.
     (response_json env response, s))))"

text \<open>\<^verbatim>\<open>get_lyrics\<close>, lines 123 to 129: \<open>Inr None\<close> is the returned \<^verbatim>\<open>None\<close>.\<close>

definition get_lyrics :: "env \<Rightarrow> string \<Rightarrow> state \<Rightarrow> (exn + json option) \<times> state" where
  "get_lyrics env track_id s =
     bind_io (refresh_session_auth env s) (\<lambda>_ s.
     bind_io (session_get env (LYRICS_API_URL track_id) s) (\<lambda>response s.
       if status_code response = 404 then (Inr None, s)
       else bind_io (check_response response, s) (\<lambda>_ s.
            (map_sum id Some (response_json env response), s))))"

text \<open>\<^verbatim>\<open>get_track\<close>, lines 131 to 137.\<close>

definition get_track :: "env \<Rightarrow> string \<Rightarrow> state \<Rightarrow> (exn + json) \<times> state" where
  "get_track env track_id s =
     bind_io (refresh_session_auth env s) (\<lambda>_ s.
     bind_io (session_get env (METADATA_API_URL ''tracks'' track_id) s) (\<lambda>response s.
     bind_io (check_response response, s) (\<lambda>_ s.
     (response_json env response, s))))"

section \<open>The collection extender\<close>

text \<open>
  \<^verbatim>\<open>self.session.get(next_url)\<close> for a value taken from a decoded page: a string is
  requested; for any other value the HTTP library raises before anything is sent
  (its text form has no URL scheme).
\<close>

fun session_get_value :: "env \<Rightarrow> json \<Rightarrow> state \<Rightarrow> (exn + response) \<times> state" where
  "session_get_value env (JStr u) s = session_get env u s"
| "session_get_value env v s = (Inl RequestException, s)"

text \<open>
  The loop of the generator \<^verbatim>\<open>extend_track_collection\<close>, lines 145 to 151.  A generator
  runs only as far as its consumer pulls: \<open>consume acc page\<close> is what the consumer does
  with a yielded page before it asks for the next one, with \<open>Inl\<close> when the consumer
  raises or stops, which abandons the generator at the \<^verbatim>\<open>yield\<close>.  The result is the
  consumer's accumulator, how the iteration ended and the state; \<open>None\<close> is a loop that
  runs forever.
\<close>

partial_function (option) extend_loop ::
  "env \<Rightarrow> ('a \<Rightarrow> json \<Rightarrow> exn + 'a) \<Rightarrow> 'a \<Rightarrow> json \<Rightarrow> state \<Rightarrow> ('a \<times> (exn + unit) \<times> state) option" where
  "extend_loop env consume acc next_url s =
     (if next_url = JNull then Some (acc, Inr (), s)
      else (case bind_io (session_get_value env next_url s) (\<lambda>response s.
                 bind_io (check_response response, s) (\<lambda>_ s.
                 (response_json env response, s))) of
              (Inl e, s) \<Rightarrow> Some (acc, Inl e, s)
            | (Inr extended_collection, s) \<Rightarrow>
                (case consume acc extended_collection of
                   Inl e \<Rightarrow> Some (acc, Inl e, s)
                 | Inr acc \<Rightarrow>
                     (case getitem extended_collection ''next'' of
                        Inl e \<Rightarrow> Some (acc, Inl e, s)
                      | Inr next_url \<Rightarrow>
                          extend_loop env consume acc next_url
                            (s\<lparr>clock := clock s + EXTEND_TRACK_COLLECTION_WAIT_TIME\<rparr>)))))"

text \<open>\<^verbatim>\<open>extend_track_collection\<close>, lines 139 to 151.\<close>

definition extend_track_collection ::
  "env \<Rightarrow> ('a \<Rightarrow> json \<Rightarrow> exn + 'a) \<Rightarrow> 'a \<Rightarrow> json \<Rightarrow> string \<Rightarrow> state
     \<Rightarrow> ('a \<times> (exn + unit) \<times> state) option" where
  "extend_track_collection env consume acc track_collection media_type s =
     (case bind_exn (getitem track_collection media_type) (\<lambda>c. getitem c ''next'') of
        Inl e \<Rightarrow> Some (acc, Inl e, s)
      | Inr next_url \<Rightarrow> extend_loop env consume acc next_url s)"


section \<open>The album fetcher and its cache\<close>

text \<open>
  The consumer of \<^verbatim>\<open>get_album\<close>: the inner loop
  \<^verbatim>\<open>for item in extended_collection["items"]\<close> of the list comprehension.
\<close>

definition add_items :: "json list \<Rightarrow> json \<Rightarrow> exn + json list" where
  "add_items acc extended_collection =
     bind_exn (getitem extended_collection ''items'') (\<lambda>v.
     bind_exn (py_iter v) (\<lambda>items. Inr (acc @ items)))"

text \<open>\<^verbatim>\<open>v[key] = w\<close> inside a decoded document.\<close>

fun py_setitem :: "json \<Rightarrow> string \<Rightarrow> json \<Rightarrow> json" where
  "py_setitem (JObj kvs) key w = JObj (setitem kvs key w)"
| "py_setitem v key w = v"

text \<open>
  The body of \<^verbatim>\<open>get_album\<close>, lines 159 to 176, without the decorator.  The method
  \<^verbatim>\<open>album["tracks"]["items"].extend\<close> is looked up before the comprehension runs; the
  list is extended in place, so the returned album holds the longer list.
\<close>

definition get_album_wrapped ::
  "env \<Rightarrow> string \<Rightarrow> bool \<Rightarrow> state \<Rightarrow> ((exn + json) \<times> state) option" where
  "get_album_wrapped env album_id extend_flag s =
     (case bind_io (refresh_session_auth env s) (\<lambda>_ s.
           bind_io (session_get env (METADATA_API_URL ''albums'' album_id) s) (\<lambda>response s.
           bind_io (check_response response, s) (\<lambda>_ s.
           (response_json env response, s)))) of
        (Inl e, s) \<Rightarrow> Some (Inl e, s)
      | (Inr album, s) \<Rightarrow>
          if extend_flag
          then (case bind_exn (getitem album ''tracks'') (\<lambda>tracks.
                     bind_exn (getitem tracks ''items'') (\<lambda>items.
                     bind_exn (py_extend items []) (\<lambda>_. Inr (tracks, items)))) of
                  Inl e \<Rightarrow> Some (Inl e, s)
                | Inr (tracks, items) \<Rightarrow>
                    (case extend_track_collection env add_items [] album ''tracks'' s of
                       None \<Rightarrow> None
                     | Some (new_items, Inl e, s) \<Rightarrow> Some (Inl e, s)
                     | Some (new_items, Inr _, s) \<Rightarrow>
                         Some (bind_exn (py_extend items new_items) (\<lambda>items.
                                 Inr (py_setitem album ''tracks''
                                        (py_setitem tracks ''items'' items))), s)))
          else Some (Inr album, s))"

text \<open>
  \<^verbatim>\<open>functools.lru_cache()\<close> with its defaults: at most 128 entries, keyed on the
  arguments as the call passes them.  A hit returns the stored result and makes the
  entry the most recently used; a miss calls the function, and stores the result unless
  the function raised, dropping the least recently used entry when the cache is full.
\<close>

definition lru_maxsize :: nat where
  "lru_maxsize = 128"

fun call_args :: "call \<Rightarrow> string \<times> bool" where
  "call_args (Pos1 album_id) = (album_id, True)"
| "call_args (Pos2 album_id extend_flag) = (album_id, extend_flag)"
| "call_args (Pos1Kw album_id extend_flag) = (album_id, extend_flag)"
| "call_args (Kw1 album_id) = (album_id, True)"
| "call_args (Kw2 album_id extend_flag) = (album_id, extend_flag)"
| "call_args (Kw2' extend_flag album_id) = (album_id, extend_flag)"

definition lru_hit :: "(call \<times> json) list \<Rightarrow> call \<Rightarrow> json \<Rightarrow> (call \<times> json) list" where
  "lru_hit c key result = (key, result) # filter (\<lambda>(k, v). k \<noteq> key) c"

definition lru_store :: "(call \<times> json) list \<Rightarrow> call \<Rightarrow> json \<Rightarrow> (call \<times> json) list" where
  "lru_store c key result =
     (if map_of c key \<noteq> None then c
      else if lru_maxsize \<le> length c then (key, result) # butlast c
      else (key, result) # c)"

text \<open>\<^verbatim>\<open>get_album\<close> as decorated, lines 153 to 176.\<close>

definition get_album :: "env \<Rightarrow> call \<Rightarrow> state \<Rightarrow> ((exn + json) \<times> state) option" where
  "get_album env c s =
     (case map_of (cache s) c of
        Some result \<Rightarrow> Some (Inr result, s\<lparr>cache := lru_hit (cache s) c result\<rparr>)
      | None \<Rightarrow>
          (case get_album_wrapped env (fst (call_args c)) (snd (call_args c)) s of
             None \<Rightarrow> None
           | Some (Inl e, s) \<Rightarrow> Some (Inl e, s)
           | Some (Inr result, s) \<Rightarrow>
               Some (Inr result, s\<lparr>cache := lru_store (cache s) c result\<rparr>)))"

section \<open>Vocabulary for the properties\<close>

text \<open>
  \<open>other_headers hs\<close> are the entries of a header dictionary other than
  \<^verbatim>\<open>Authorization\<close>.  \<open>renewed s s'\<close>: the cache and the other headers of \<open>s'\<close> are
  those of \<open>s\<close>.  \<open>home_request s\<close> is the request for the landing page as the
  session sends it in \<open>s\<close>, \<open>get_request s u\<close> the one for any other address.
\<close>

definition other_headers :: "(string \<times> string) list \<Rightarrow> (string \<times> string) list" where
  "other_headers hs = filter (\<lambda>(k, v). lower k \<noteq> lower ''Authorization'') hs"

definition renewed :: "state \<Rightarrow> state \<Rightarrow> bool" where
  "renewed s s' \<longleftrightarrow>
     cache s' = cache s \<and> other_headers (headers s') = other_headers (headers s)"

definition get_request :: "state \<Rightarrow> string \<Rightarrow> request" where
  "get_request s u =
     \<lparr>http_method = GET, url = u, req_headers = headers s, req_cookies = cookies s,
      req_body = []\<rparr>"

definition home_request :: "state \<Rightarrow> request" where
  "home_request s = get_request s SPOTIFY_HOME_PAGE_URL"







definition trace :: "state \<Rightarrow> (real \<times> string \<times> string option) list" where
  "trace s = map (\<lambda>(t, rq). (t, url rq, hdr_get (req_headers rq) ''Authorization'')) (sent s)"






section \<open>A small world for concrete runs\<close>

text \<open>
  A landing page with both embedded documents, one with the first only and one with
  neither; an album of three chained pages of tracks; a page of tracks whose \<^verbatim>\<open>next\<close>
  leads to an address that is not served; a track without lyrics.  \<open>demo_loads\<close>
  decodes exactly the documents this world serves.
\<close>

definition demo_session_text :: string where
  \<open>demo_session_text = ''{"accessToken":"NEW","accessTokenExpirationTimestampMs":7200000}''\<close>

definition demo_config_text :: string where
  \<open>demo_config_text = ''{"market":"DE"}''\<close>

definition demo_home_page :: string where
  "demo_home_page =
     ''<html>'' @ SESSION_OPEN @ demo_session_text @ SCRIPT_CLOSE
       @ CONFIG_OPEN @ demo_config_text @ SCRIPT_CLOSE @ ''</html>''"

definition session_only_home_page :: string where
  "session_only_home_page =
     ''<html>'' @ SESSION_OPEN @ demo_session_text @ SCRIPT_CLOSE @ ''</html>''"

definition bare_home_page :: string where
  "bare_home_page = ''<html><body>Log in</body></html>''"

definition demo_page2_url :: string where
  "demo_page2_url = ''https://api.spotify.com/v1/albums/A/tracks?offset=1''"

definition demo_page3_url :: string where
  "demo_page3_url = ''https://api.spotify.com/v1/albums/A/tracks?offset=2''"

definition demo_broken_url :: string where
  "demo_broken_url = ''https://api.spotify.com/v1/albums/B/tracks?offset=1''"

definition demo_missing_url :: string where
  "demo_missing_url = ''https://api.spotify.com/v1/albums/B/tracks?offset=2''"

definition demo_album_text :: string where
  \<open>demo_album_text = ''{"name":"A","tracks":{"items":["t1"],"next":"''
     @ demo_page2_url @ ''"}}''\<close>

definition demo_page2_text :: string where
  \<open>demo_page2_text = ''{"items":["t2"],"next":"'' @ demo_page3_url @ ''"}''\<close>

definition demo_page3_text :: string where
  \<open>demo_page3_text = ''{"items":["t3"],"next":null}''\<close>

definition demo_broken_text :: string where
  \<open>demo_broken_text = ''{"items":["b2"],"next":"'' @ demo_missing_url @ ''"}''\<close>

definition demo_session :: json where
  "demo_session =
     JObj [(''accessToken'', JStr ''NEW''), (''accessTokenExpirationTimestampMs'', JInt 7200000)]"

definition demo_config :: json where
  "demo_config = JObj [(''market'', JStr ''DE'')]"

definition demo_album :: json where
  "demo_album =
     JObj [(''name'', JStr ''A''),
           (''tracks'', JObj [(''items'', JArr [JStr ''t1'']), (''next'', JStr demo_page2_url)])]"

definition demo_page2 :: json where
  "demo_page2 = JObj [(''items'', JArr [JStr ''t2'']), (''next'', JStr demo_page3_url)]"

definition demo_page3 :: json where
  "demo_page3 = JObj [(''items'', JArr [JStr ''t3'']), (''next'', JNull)]"

definition demo_broken_page :: json where
  "demo_broken_page = JObj [(''items'', JArr [JStr ''b2'']), (''next'', JStr demo_missing_url)]"

definition demo_loads :: "string \<Rightarrow> json option" where
  "demo_loads t =
     (if t = demo_session_text then Some demo_session
      else if t = demo_config_text then Some demo_config
      else if t = demo_album_text then Some demo_album
      else if t = demo_page2_text then Some demo_page2
      else if t = demo_page3_text then Some demo_page3
      else if t = demo_broken_text then Some demo_broken_page
      else None)"

definition ok_reply :: "string \<Rightarrow> reply" where
  "ok_reply t =
     \<lparr>outcome = Inr \<lparr>status_code = 200, resp_text = t\<rparr>, took = 0.1, stored = (\<lambda>jar. jar)\<rparr>"

definition not_found :: reply where
  "not_found =
     \<lparr>outcome = Inr \<lparr>status_code = 404, resp_text = ''Not found''\<rparr>, took = 0.1,
      stored = (\<lambda>jar. jar)\<rparr>"

definition demo_remote :: "string \<Rightarrow> real \<Rightarrow> request \<Rightarrow> reply" where
  "demo_remote home_page t rq =
     (if url rq = SPOTIFY_HOME_PAGE_URL then ok_reply home_page
      else if url rq = METADATA_API_URL ''albums'' ''A'' then ok_reply demo_album_text
      else if url rq = demo_page2_url then ok_reply demo_page2_text
      else if url rq = demo_page3_url then ok_reply demo_page3_text
      else if url rq = demo_broken_url then ok_reply demo_broken_text
      else not_found)"

definition demo_env :: "string \<Rightarrow> env" where
  "demo_env home_page =
     \<lparr>remote = demo_remote home_page, json_loads = demo_loads, py_repr = (\<lambda>v. ''?'')\<rparr>"

text \<open>
  A session whose token \<^verbatim>\<open>OLD\<close> expires at 3600000 ms, at clock time \<open>t\<close> seconds.
\<close>

definition demo_state :: "real \<Rightarrow> state" where
  "demo_state t =
     \<lparr>cookies = [(''sp_dc'', ''secret'', ''.spotify.com'')],
      headers = [(''accept'', ''application/json''), (''Authorization'', ''Bearer OLD'')],
      session_info =
        JObj [(''accessToken'', JStr ''OLD''), (''accessTokenExpirationTimestampMs'', JInt 3600000)],
      config_info = demo_config,
      cache = [],
      clock = t,
      sent = []\<rparr>"

text \<open>
  The same world with a server that sets the cookie \<^verbatim>\<open>sp_dc\<close> anew with every landing
  page, and a session whose \<^verbatim>\<open>config_info\<close> is not that of the landing page.
\<close>

fun set_cookie :: "cookie \<Rightarrow> cookie list \<Rightarrow> cookie list" where
  "set_cookie c [] = [c]"
| "set_cookie c (x # xs) =
     (if fst x = fst c \<and> snd (snd x) = snd (snd c) then c # xs else x # set_cookie c xs)"

definition cookie_remote :: "real \<Rightarrow> request \<Rightarrow> reply" where
  "cookie_remote t rq =
     (if url rq = SPOTIFY_HOME_PAGE_URL
      then (ok_reply demo_home_page)\<lparr>stored := set_cookie (''sp_dc'', ''rotated'', ''.spotify.com'')\<rparr>
      else demo_remote demo_home_page t rq)"

definition cookie_env :: env where
  "cookie_env = \<lparr>remote = cookie_remote, json_loads = demo_loads, py_repr = (\<lambda>v. ''?'')\<rparr>"

definition stale_state :: state where
  "stale_state = (demo_state 4000)\<lparr>config_info := JObj [(''market'', JStr ''US'')]\<rparr>"


text \<open>The album of the small world with the tracks of all three pages.\<close>

definition demo_full_album :: json where
  "demo_full_album =
     JObj [(''name'', JStr ''A''),
           (''tracks'', JObj [(''items'', JArr [JStr ''t1'', JStr ''t2'', JStr ''t3'']),
                              (''next'', JStr demo_page2_url)])]"







section \<open>Properties of the ID transcoder\<close>

subsection \<open>Digits and values\<close>

lemma val_of_append: "val_of b (xs @ ys) = val_of b xs * b ^ length ys + val_of b ys"
  by (induction xs) (simp_all add: algebra_simps power_add)

lemma val_of_digits_of: "2 \<le> b \<Longrightarrow> val_of b (digits_of b n) = n"
proof (induction b n rule: digits_of.induct)
  case (1 b n)
  show ?case
  proof (cases "n = 0")
    case True
    then show ?thesis by (simp add: digits_of.simps)
  next
    case False
    with 1 have "val_of b (digits_of b (n div b)) = n div b" by simp
    with False 1(2) show ?thesis
      by (subst digits_of.simps) (simp add: val_of_append)
  qed
qed

lemma digits_of_bound: "\<forall>d \<in> set (digits_of b n). d < b"
proof (induction b n rule: digits_of.induct)
  case (1 b n)
  then show ?case
    by (subst digits_of.simps) auto
qed

lemma val_of_zero_iff: "2 \<le> b \<Longrightarrow> val_of b ds = 0 \<longleftrightarrow> (\<forall>d \<in> set ds. d = 0)"
  by (induction ds) auto

lemma digits_of_val_of:
  "2 \<le> b \<Longrightarrow> \<forall>d \<in> set ds. d < b \<Longrightarrow> digits_of b (val_of b ds) = dropWhile (\<lambda>d. d = 0) ds"
proof (induction ds rule: rev_induct)
  case Nil
  then show ?case by (simp add: digits_of.simps)
next
  case (snoc d ds)
  let ?v = "val_of b (ds @ [d])"
  have v: "?v = val_of b ds * b + d" by (simp add: val_of_append)
  show ?case
  proof (cases "?v = 0")
    case True
    with snoc.prems have "\<forall>x \<in> set (ds @ [d]). x = 0"
      by (simp only: val_of_zero_iff)
    then have "dropWhile (\<lambda>d. d = 0) (ds @ [d]) = []" by simp
    with True show ?thesis by (simp add: digits_of.simps)
  next
    case False
    from snoc.prems have d: "d < b" by simp
    with v have dm: "?v div b = val_of b ds" "?v mod b = d" by simp_all
    from snoc have ih: "digits_of b (val_of b ds) = dropWhile (\<lambda>d. d = 0) ds" by simp
    have "digits_of b ?v = digits_of b (?v div b) @ [?v mod b]"
      using False snoc.prems(1) by (subst digits_of.simps) simp
    also have "\<dots> = dropWhile (\<lambda>d. d = 0) ds @ [d]" using dm ih by simp
    also have "\<dots> = dropWhile (\<lambda>d. d = 0) (ds @ [d])"
    proof (cases "\<forall>x \<in> set ds. x = 0")
      case True
      with snoc.prems(1) have "val_of b ds = 0" by (simp add: val_of_zero_iff)
      with v False have "d \<noteq> 0" by simp
      with True show ?thesis by (simp add: dropWhile_append)
    next
      case False
      then show ?thesis by (auto simp: dropWhile_append)
    qed
    finally show ?thesis .
  qed
qed

lemma val_of_replicate_zero: "val_of b (replicate k 0 @ ds) = val_of b ds"
  by (induction k) simp_all

lemma hex_loop_digits: "hex_loop n chs = map (\<lambda>d. hex_digits ! d) (digits_of 16 (nat n)) @ chs"
proof (induction n chs rule: hex_loop.induct)
  case (1 n chs)
  show ?case
  proof (cases "n > 0")
    case True
    then have n: "nat n \<noteq> 0" "nat (n div 16) = nat n div 16" "nat (n mod 16) = nat n mod 16"
      by (simp_all add: nat_div_distrib nat_mod_distrib)
    from True 1 have "hex_loop n chs =
        map (\<lambda>d. hex_digits ! d) (digits_of 16 (nat (n div 16))) @ hex_digits ! nat (n mod 16) # chs"
      by (subst hex_loop.simps) simp
    also have "\<dots> = map (\<lambda>d. hex_digits ! d) (digits_of 16 (nat n)) @ chs"
      using n by (subst (2) digits_of.simps) simp
    finally show ?thesis .
  next
    case False
    then show ?thesis by (subst hex_loop.simps) (simp add: digits_of.simps)
  qed
qed

lemma encode_loop_digits:
  "encode_loop cs n chs = map (\<lambda>d. cs ! d) (digits_of 62 (nat n)) @ chs"
proof (induction cs n chs rule: encode_loop.induct)
  case (1 cs n chs)
  show ?case
  proof (cases "n > 0")
    case True
    then have n: "nat n \<noteq> 0" "nat (n div 62) = nat n div 62" "nat (n mod 62) = nat n mod 62"
      by (simp_all add: nat_div_distrib nat_mod_distrib)
    from True 1 have "encode_loop cs n chs =
        map (\<lambda>d. cs ! d) (digits_of 62 (nat (n div 62))) @ cs ! nat (n mod 62) # chs"
      by (subst encode_loop.simps) (simp add: BASE_def)
    also have "\<dots> = map (\<lambda>d. cs ! d) (digits_of 62 (nat n)) @ chs"
      using n by (subst (2) digits_of.simps) simp
    finally show ?thesis .
  next
    case False
    then show ?thesis by (subst encode_loop.simps) (simp add: digits_of.simps)
  qed
qed

subsection \<open>Character sets, decoding and padding\<close>

lemma index_of_None: "index_of c cs = None \<longleftrightarrow> c \<notin> set cs"
  by (induction cs) auto

lemma index_of_Some: "index_of c cs = Some i \<Longrightarrow> i < length cs \<and> cs ! i = c"
  by (induction cs arbitrary: i) (auto split: if_splits)

lemma index_of_nth: "distinct cs \<Longrightarrow> i < length cs \<Longrightarrow> index_of (cs ! i) cs = Some i"
proof (induction cs arbitrary: i)
  case Nil
  then show ?case by simp
next
  case (Cons x xs)
  then show ?case by (cases i) auto
qed

lemma idx_nth: "distinct cs \<Longrightarrow> i < length cs \<Longrightarrow> idx cs (cs ! i) = i"
  by (simp add: idx_def index_of_nth)

lemma nth_idx: "c \<in> set cs \<Longrightarrow> cs ! idx cs c = c \<and> idx cs c < length cs"
  by (cases "index_of c cs") (auto simp: idx_def index_of_None dest: index_of_Some)

lemma decode_loop_val:
  "set xs \<subseteq> set cs \<Longrightarrow> l = i + length xs \<Longrightarrow>
   decode_loop cs l xs i v = Inr (v + int (val_of 62 (map (idx cs) xs)))"
proof (induction xs arbitrary: i v)
  case Nil
  then show ?case by simp
next
  case (Cons x xs)
  from Cons.prems obtain k where k: "index_of x cs = Some k"
    by (cases "index_of x cs") (auto simp: index_of_None)
  from Cons.prems have "decode_loop cs l xs (i + 1) (v + int k * BASE ^ (l - (i + 1)))
      = Inr (v + int k * BASE ^ (l - (i + 1)) + int (val_of 62 (map (idx cs) xs)))"
    by (intro Cons.IH) auto
  moreover from Cons.prems have "l - (i + 1) = length xs" by simp
  moreover from k have "idx cs x = k" by (simp add: idx_def)
  ultimately show ?case using k
    by (simp add: base62_value_def BASE_def)
qed

lemma decode_loop_invalid:
  "\<not> set xs \<subseteq> set cs \<Longrightarrow> decode_loop cs l xs i v = Inl ValueError"
proof (induction xs arbitrary: i v)
  case Nil
  then show ?case by simp
next
  case (Cons x xs)
  show ?case
  proof (cases "index_of x cs")
    case None
    then show ?thesis by (simp add: base62_value_def)
  next
    case (Some k)
    then have "x \<in> set cs" using index_of_None [of x cs] by auto
    with Cons.prems have "\<not> set xs \<subseteq> set cs" by auto
    then show ?thesis using Some Cons.IH by (simp add: base62_value_def)
  qed
qed

lemma base62_decode_valid:
  "set s \<subseteq> set cs \<Longrightarrow> base62_decode s cs = Inr (int (val_of 62 (map (idx cs) s)))"
  by (simp add: base62_decode_def decode_loop_val)

lemma base62_decode_invalid:
  "\<not> set s \<subseteq> set cs \<Longrightarrow> base62_decode s cs = Inl ValueError"
  by (simp add: base62_decode_def decode_loop_invalid)

lemma takeWhile_eq_replicate: "takeWhile (\<lambda>x. x = z) xs = replicate (length (takeWhile (\<lambda>x. x = z) xs)) z"
  by (induction xs) auto

lemma pad_dropWhile:
  "replicate (length xs - length (dropWhile (\<lambda>x. x = z) xs)) z @ dropWhile (\<lambda>x. x = z) xs = xs"
proof -
  have "length xs - length (dropWhile (\<lambda>x. x = z) xs) = length (takeWhile (\<lambda>x. x = z) xs)"
    by (metis add_diff_cancel_right' length_append takeWhile_dropWhile_id)
  then show ?thesis
    using takeWhile_eq_replicate [of z xs] by (metis takeWhile_dropWhile_id)
qed

lemma zfill_plain:
  "s \<noteq> [] \<Longrightarrow> hd s \<noteq> CHR ''+'' \<Longrightarrow> hd s \<noteq> CHR ''-'' \<Longrightarrow>
   zfill s w = replicate (w - length s) (CHR ''0'') @ s"
  by (cases s) (auto simp: zfill_def)

lemma py_hex_enc:
  assumes "0 \<le> n"
  shows "py_hex n = ''0x'' @ enc 16 hex_digits (nat n)"
proof -
  from assms have a: "\<bar>n\<bar> = n" and b: "\<not> n < 0" by simp_all
  have "hex_loop n [] = map (\<lambda>d. hex_digits ! d) (digits_of 16 (nat n))"
    by (simp only: hex_loop_digits append_Nil2)
  then show ?thesis
    unfolding py_hex_def enc_def Let_def a by (simp only: b if_False append_Nil)
qed

lemma base62_encode_enc: "base62_encode n cs = enc 62 cs (nat n)"
  by (simp add: base62_encode_def enc_def encode_loop_digits Let_def)

lemma map_nth_idx: "set s \<subseteq> set cs \<Longrightarrow> map (\<lambda>d. cs ! d) (map (idx cs) s) = s"
  by (induction s) (auto simp: nth_idx)

lemma idx_zero_iff:
  "distinct cs \<Longrightarrow> cs \<noteq> [] \<Longrightarrow> c \<in> set cs \<Longrightarrow> idx cs c = 0 \<longleftrightarrow> c = cs ! 0"
proof -
  assume d: "distinct cs" and ne: "cs \<noteq> []" and c: "c \<in> set cs"
  from d ne have "idx cs (cs ! 0) = 0" by (intro idx_nth) simp_all
  moreover from c have "cs ! idx cs c = c" by (simp add: nth_idx)
  ultimately show ?thesis by auto
qed

lemma enc_val_pad:
  assumes cs: "distinct cs" "length cs = b" "2 \<le> b" "cs ! 0 = CHR ''0''"
    and s: "set s \<subseteq> set cs" "s \<noteq> []"
  defines "e \<equiv> enc b cs (val_of b (map (idx cs) s))"
  shows "replicate (length s - length e) (CHR ''0'') @ e = s"
proof -
  let ?z = "CHR ''0''"
  let ?t = "dropWhile (\<lambda>c. c = ?z) s"
  from cs have ne: "cs \<noteq> []" by auto
  have bound: "\<forall>d \<in> set (map (idx cs) s). d < b"
    using s(1) cs(2) nth_idx [of _ cs] by auto
  have "digits_of b (val_of b (map (idx cs) s)) = dropWhile (\<lambda>d. d = 0) (map (idx cs) s)"
    using cs(3) bound by (rule digits_of_val_of)
  also have "\<dots> = map (idx cs) (dropWhile (\<lambda>c. idx cs c = 0) s)"
    by (simp add: dropWhile_map comp_def)
  also have "dropWhile (\<lambda>c. idx cs c = 0) s = ?t"
    using s(1) cs(1,4) ne by (intro dropWhile_cong refl) (auto simp: idx_zero_iff)
  finally have "digits_of b (val_of b (map (idx cs) s)) = map (idx cs) ?t" .
  moreover have "set ?t \<subseteq> set cs"
    using s(1) set_dropWhileD [of _ "\<lambda>c. c = ?z" s] by blast
  ultimately have ds: "map (\<lambda>d. cs ! d) (digits_of b (val_of b (map (idx cs) s))) = ?t"
    by (simp only: map_nth_idx)
  show ?thesis
  proof (cases "?t = []")
    case True
    then have "\<forall>c \<in> set s. c = ?z" by (simp add: dropWhile_eq_Nil_conv)
    then have "s = replicate (length s) ?z"
      by (simp add: replicate_length_same)
    moreover from True ds have "e = [?z]" by (simp add: e_def enc_def)
    moreover from s(2) have "replicate (length s - 1) ?z @ [?z] = replicate (length s) ?z"
      by (cases s) (simp_all add: replicate_append_same)
    ultimately show ?thesis by simp
  next
    case False
    with ds have "e = ?t" by (auto simp: e_def enc_def)
    then show ?thesis by (simp only: pad_dropWhile)
  qed
qed

lemma map_idx_nth:
  "distinct cs \<Longrightarrow> \<forall>d \<in> set ds. d < length cs \<Longrightarrow> map (idx cs) (map (\<lambda>d. cs ! d) ds) = ds"
  by (induction ds) (simp_all add: idx_nth)

lemma val_enc_pad:
  assumes cs: "distinct cs" "length cs = b" "2 \<le> b" "cs ! 0 = CHR ''0''"
  shows "val_of b (map (idx cs) (replicate k (CHR ''0'') @ enc b cs n)) = n"
proof -
  from cs have "idx cs (cs ! 0) = 0" by (intro idx_nth) simp_all
  with cs(4) have z: "idx cs (CHR ''0'') = 0" by simp
  have "map (idx cs) (enc b cs n) = (if n = 0 then [0] else digits_of b n)"
  proof (cases "digits_of b n = []")
    case True
    with cs(3) have "n = 0" using val_of_digits_of [of b n] by simp
    with True z show ?thesis by (simp add: enc_def)
  next
    case False
    then have "n \<noteq> 0" by (subst (asm) digits_of.simps) (auto split: if_splits)
    moreover have "map (idx cs) (map (\<lambda>d. cs ! d) (digits_of b n)) = digits_of b n"
      using digits_of_bound [of b n] cs(1,2) by (intro map_idx_nth) simp_all
    ultimately show ?thesis using False by (simp add: enc_def)
  qed
  then have "val_of b (map (idx cs) (replicate k (CHR ''0'') @ enc b cs n))
      = val_of b (replicate k 0 @ (if n = 0 then [0] else digits_of b n))"
    using z by simp
  also have "\<dots> = n"
    using cs(3) by (simp add: val_of_replicate_zero val_of_digits_of)
  finally show ?thesis .
qed

lemma enc_in_charset:
  assumes "length cs = b" "2 \<le> b" "cs ! 0 = CHR ''0''"
  shows "set (enc b cs n) \<subseteq> set cs" and "enc b cs n \<noteq> []"
proof -
  from assms(1,2) have "cs ! 0 \<in> set cs" by (intro nth_mem) simp
  with assms(3) have "CHR ''0'' \<in> set cs" by simp
  moreover have "\<forall>d \<in> set (digits_of b n). cs ! d \<in> set cs"
    using digits_of_bound [of b n] assms(1) by simp
  ultimately show "set (enc b cs n) \<subseteq> set cs" by (auto simp: enc_def)
  show "enc b cs n \<noteq> []" by (simp add: enc_def)
qed

subsection \<open>Parsing hexadecimal strings\<close>

lemma charset_facts:
  "distinct CHARSET_INVERTED" "length CHARSET_INVERTED = 62" "CHARSET_INVERTED ! 0 = CHR ''0''"
  "CHR ''+'' \<notin> set CHARSET_INVERTED" "CHR ''-'' \<notin> set CHARSET_INVERTED"
  by (simp_all add: CHARSET_INVERTED_def)

lemma hex_digits_facts:
  "distinct hex_digits" "length hex_digits = 16" "hex_digits ! 0 = CHR ''0''"
  "CHR ''+'' \<notin> set hex_digits" "CHR ''-'' \<notin> set hex_digits"
  by (simp_all add: hex_digits_def)

lemma hex_char_all:
  "list_all (\<lambda>c. \<not> py_isspace c \<and> c \<noteq> CHR ''+'' \<and> c \<noteq> CHR ''-'' \<and> c \<noteq> CHR ''_'' \<and>
    c \<noteq> CHR ''x'' \<and> c \<noteq> CHR ''X'' \<and> digit_value c = idx hex_digits c \<and> digit_value c < 16) hex_digits"
  by code_simp

lemma hex_char:
  assumes "c \<in> set hex_digits"
  shows "\<not> py_isspace c" "c \<noteq> CHR ''+''" "c \<noteq> CHR ''-''" "c \<noteq> CHR ''_''"
    "c \<noteq> CHR ''x''" "c \<noteq> CHR ''X''" "digit_value c = idx hex_digits c" "digit_value c < 16"
  using assms hex_char_all unfolding list_all_iff by blast+

lemma scan_digits_hex:
  "set s \<subseteq> set hex_digits \<Longrightarrow>
   scan_digits 16 False s v k
     = Some (v * 16 ^ length s + int (val_of 16 (map (idx hex_digits) s)), k + length s, [])"
proof (induction s arbitrary: v k)
  case Nil
  then show ?case by simp
next
  case (Cons c cs)
  then have c: "c \<in> set hex_digits" and cs: "set cs \<subseteq> set hex_digits" by simp_all
  show ?case
    using hex_char(4,7,8) [OF c] Cons.IH [OF cs] by (simp add: algebra_simps)
qed

lemma py_int_hex:
  assumes "set s \<subseteq> set hex_digits" "s \<noteq> []"
  shows "py_int s 16 = Inr (int (val_of 16 (map (idx hex_digits) s)))"
proof -
  from assms obtain c cs where s: "s = c # cs" by (cases s) auto
  with assms have c: "c \<in> set hex_digits" by simp
  have 1: "dropWhile py_isspace s = s" using s hex_char(1) [OF c] by simp
  have 2: "skip_sign s = (1, s)" using s hex_char(2,3) [OF c] by (simp add: skip_sign_def)
  have 3: "skip_prefix 16 s = s"
  proof (cases cs)
    case Nil
    with s show ?thesis by (simp add: skip_prefix_def)
  next
    case (Cons c1 cs')
    with s assms have "c1 \<in> set hex_digits" by simp
    from hex_char(5,6) [OF this] s Cons show ?thesis by (simp add: skip_prefix_def)
  qed
  have 4: "hd s \<noteq> CHR ''_''" using s hex_char(4) [OF c] by simp
  show ?thesis
    using assms(2) by (simp add: py_int_def 1 2 3 4 scan_digits_hex [OF assms(1)])
qed

subsection \<open>Round trips\<close>

lemma zfill_enc:
  assumes "length cs = b" "2 \<le> b" "cs ! 0 = CHR ''0''" "CHR ''+'' \<notin> set cs" "CHR ''-'' \<notin> set cs"
  shows "zfill (enc b cs n) w = replicate (w - length (enc b cs n)) (CHR ''0'') @ enc b cs n"
proof -
  from enc_in_charset [OF assms(1-3), of n]
  have sub: "set (enc b cs n) \<subseteq> set cs" and ne: "enc b cs n \<noteq> []" .
  from ne have "hd (enc b cs n) \<in> set (enc b cs n)" by simp
  with sub have "hd (enc b cs n) \<in> set cs" by blast
  with assms(4,5) have "hd (enc b cs n) \<noteq> CHR ''+''" "hd (enc b cs n) \<noteq> CHR ''-''" by auto
  with ne show ?thesis by (rule zfill_plain)
qed

lemma zfill_enc_in_charset:
  assumes "length cs = b" "2 \<le> b" "cs ! 0 = CHR ''0''" "CHR ''+'' \<notin> set cs" "CHR ''-'' \<notin> set cs"
  shows "set (zfill (enc b cs n) w) \<subseteq> set cs" "zfill (enc b cs n) w \<noteq> []"
proof -
  from assms(1,2) have "cs ! 0 \<in> set cs" by (intro nth_mem) simp
  with assms(3) have z: "CHR ''0'' \<in> set cs" by simp
  from enc_in_charset [OF assms(1-3), of n]
  have sub: "set (enc b cs n) \<subseteq> set cs" and ne: "enc b cs n \<noteq> []" .
  show "set (zfill (enc b cs n) w) \<subseteq> set cs"
    using z sub by (auto simp: zfill_enc [OF assms])
  show "zfill (enc b cs n) w \<noteq> []"
    using ne by (simp add: zfill_enc [OF assms])
qed

lemma media_id_to_gid_valid:
  assumes "set m \<subseteq> set CHARSET_INVERTED"
  shows "media_id_to_gid m
    = Inr (zfill (enc 16 hex_digits (val_of 62 (map (idx CHARSET_INVERTED) m))) 32)"
  using assms by (simp add: media_id_to_gid_def base62_decode_valid py_hex_enc)

lemma gid_to_media_id_hex:
  assumes "set g \<subseteq> set hex_digits" "g \<noteq> []"
  shows "gid_to_media_id g
    = Inr (zfill (enc 62 CHARSET_INVERTED (val_of 16 (map (idx hex_digits) g))) 22)"
  using assms by (simp add: gid_to_media_id_def py_int_hex base62_encode_enc)

lemma roundtrip_public:
  assumes "length p = 22" "set p \<subseteq> set CHARSET_INVERTED"
  shows "bind_exn (media_id_to_gid p) gid_to_media_id = Inr p"
proof -
  let ?v = "val_of 62 (map (idx CHARSET_INVERTED) p)"
  let ?g = "zfill (enc 16 hex_digits ?v) 32"
  from assms(1) have ne: "p \<noteq> []" by auto
  note hx = hex_digits_facts(2) _ hex_digits_facts(3-5)
  note cx = charset_facts(2) _ charset_facts(3-5)
  have g: "set ?g \<subseteq> set hex_digits" "?g \<noteq> []"
    by (rule zfill_enc_in_charset [OF hx]; simp)+
  have "val_of 16 (map (idx hex_digits) ?g) = ?v"
    unfolding zfill_enc [OF hx, simplified]
    by (rule val_enc_pad [OF hex_digits_facts(1,2) _ hex_digits_facts(3)]) simp
  with g have "gid_to_media_id ?g = Inr (zfill (enc 62 CHARSET_INVERTED ?v) 22)"
    by (simp add: gid_to_media_id_hex)
  also have "zfill (enc 62 CHARSET_INVERTED ?v) 22 = p"
    unfolding zfill_enc [OF cx, simplified]
    using enc_val_pad [OF charset_facts(1,2) _ charset_facts(3) assms(2) ne] assms(1)
    by simp
  finally show ?thesis
    using assms(2) by (simp add: bind_exn_def media_id_to_gid_valid)
qed

lemma roundtrip_internal:
  assumes "length i = 32" "set i \<subseteq> set hex_digits"
  shows "bind_exn (gid_to_media_id i) media_id_to_gid = Inr i"
proof -
  let ?n = "val_of 16 (map (idx hex_digits) i)"
  let ?m = "zfill (enc 62 CHARSET_INVERTED ?n) 22"
  note hx = hex_digits_facts(2) _ hex_digits_facts(3-5)
  note cx = charset_facts(2) _ charset_facts(3-5)
  from assms(1) have ne: "i \<noteq> []" by auto
  have m: "set ?m \<subseteq> set CHARSET_INVERTED"
    by (rule zfill_enc_in_charset [OF cx]) simp
  have "val_of 62 (map (idx CHARSET_INVERTED) ?m) = ?n"
    unfolding zfill_enc [OF cx, simplified]
    by (rule val_enc_pad [OF charset_facts(1,2) _ charset_facts(3)]) simp
  with m have "media_id_to_gid ?m = Inr (zfill (enc 16 hex_digits ?n) 32)"
    by (simp add: media_id_to_gid_valid)
  also have "zfill (enc 16 hex_digits ?n) 32 = i"
    unfolding zfill_enc [OF hx, simplified]
    using enc_val_pad [OF hex_digits_facts(1,2) _ hex_digits_facts(3) assms(2) ne] assms(1)
    by simp
  finally show ?thesis
    using assms(2) ne by (simp add: bind_exn_def gid_to_media_id_hex)
qed

text \<open>
  Claim C3, as amended.  The two transcoders are inverse to each other on identifiers of
  the padded length: for every public identifier \<open>p\<close> of exactly 22 characters of the
  base-62 character set, \<open>to_public (to_internal p) = p\<close>, and for every internal
  identifier \<open>i\<close> of 32 lowercase hexadecimal characters,
  \<open>to_internal (to_public i) = i\<close>.  Neither call fails on these inputs.
\<close>

theorem transcoder_roundtrip:
  "(length p = 22 \<and> set p \<subseteq> set CHARSET_INVERTED
      \<longrightarrow> bind_exn (media_id_to_gid p) gid_to_media_id = Inr p) \<and>
   (length i = 32 \<and> set i \<subseteq> set hex_digits
      \<longrightarrow> bind_exn (gid_to_media_id i) media_id_to_gid = Inr i)"
  using roundtrip_public [of p] roundtrip_internal [of i] by blast

theorem transcoder_roundtrip_witness:
  "length ''4uLU6hMCjMI75M1A2tKUQC'' = 22 \<and>
   set ''4uLU6hMCjMI75M1A2tKUQC'' \<subseteq> set CHARSET_INVERTED \<and>
   bind_exn (media_id_to_gid ''4uLU6hMCjMI75M1A2tKUQC'') gid_to_media_id
     = Inr ''4uLU6hMCjMI75M1A2tKUQC'' \<and>
   length ''93bc414a606747b2b612491ef83d5a3e'' = 32 \<and>
   set ''93bc414a606747b2b612491ef83d5a3e'' \<subseteq> set hex_digits \<and>
   bind_exn (gid_to_media_id ''93bc414a606747b2b612491ef83d5a3e'') media_id_to_gid
     = Inr ''93bc414a606747b2b612491ef83d5a3e''"
proof -
  have p: "length ''4uLU6hMCjMI75M1A2tKUQC'' = 22 \<and>
      set ''4uLU6hMCjMI75M1A2tKUQC'' \<subseteq> set CHARSET_INVERTED"
    by (simp add: CHARSET_INVERTED_def)
  have i: "length ''93bc414a606747b2b612491ef83d5a3e'' = 32 \<and>
      set ''93bc414a606747b2b612491ef83d5a3e'' \<subseteq> set hex_digits"
    by (simp add: hex_digits_def)
  from p i transcoder_roundtrip
    [of "''4uLU6hMCjMI75M1A2tKUQC''" "''93bc414a606747b2b612491ef83d5a3e''"]
  show ?thesis by blast
qed

text \<open>
  Claim C3 as the specification words it takes every non-empty base-62 string whose
  value fits in 128 bits as a valid public identifier.  The one-character identifier
  \<^verbatim>\<open>"1"\<close> is such a string, and the round trip returns it padded to 22 characters.
\<close>

theorem transcoder_roundtrip_short_id_counterexample:
  "set ''1'' \<subseteq> set CHARSET_INVERTED \<and>
   base62_decode ''1'' CHARSET_INVERTED = Inr 1 \<and>
   bind_exn (media_id_to_gid ''1'') gid_to_media_id = Inr ''0000000000000000000001'' \<and>
   bind_exn (media_id_to_gid ''1'') gid_to_media_id \<noteq> Inr ''1''"
  by code_simp

subsection \<open>Malformed and oversized input\<close>

lemma val_of_less: "\<forall>d \<in> set ds. d < b \<Longrightarrow> val_of b ds < b ^ length ds"
proof (induction ds)
  case Nil
  then show ?case by simp
next
  case (Cons d ds)
  then have d: "d < b" and ih: "val_of b ds < b ^ length ds" by simp_all
  from d have "d * b ^ length ds + b ^ length ds \<le> b * b ^ length ds"
    by (metis Suc_leI mult_Suc mult_le_mono1 add.commute)
  with ih show ?case by simp
qed

lemma length_enc_overflow:
  assumes "16 ^ k \<le> n"
  shows "k < length (enc 16 hex_digits n)"
proof -
  let ?ds = "digits_of 16 n"
  have "n = val_of 16 ?ds" by (simp add: val_of_digits_of)
  also have "\<dots> < 16 ^ length ?ds" by (rule val_of_less) (rule digits_of_bound)
  finally have "n < 16 ^ length ?ds" .
  with assms have "(16::nat) ^ k < 16 ^ length ?ds" by (rule le_less_trans)
  then have "k < length ?ds" by (rule power_less_imp_less_exp [rotated]) simp
  moreover from this have "?ds \<noteq> []" by auto
  ultimately show ?thesis by (simp add: enc_def)
qed

lemma media_id_to_gid_overflow:
  assumes "base62_decode m CHARSET_INVERTED = Inr v" "2 ^ 128 \<le> v"
  shows "\<exists>g. media_id_to_gid m = Inr g \<and> 32 < length g"
proof -
  from assms(2) have v: "0 \<le> v" by simp
  from assms(2) have "(16::nat) ^ 32 \<le> nat v" by simp
  then have "32 < length (enc 16 hex_digits (nat v))" by (rule length_enc_overflow)
  then show ?thesis
    using assms(1) by (simp add: media_id_to_gid_def py_hex_enc [OF v] zfill_def)
qed

lemma scan_digits_chars:
  "scan_digits base prev s v k = Some (v', k', rest) \<Longrightarrow>
   \<exists>pre. s = pre @ rest \<and> (\<forall>c \<in> set pre. c = CHR ''_'' \<or> digit_value c < base)"
proof (induction s arbitrary: prev v k)
  case Nil
  then show ?case by (simp split: if_splits)
next
  case (Cons c cs)
  show ?case
  proof (cases "c = CHR ''_'' \<or> digit_value c < base")
    case True
    with Cons.prems obtain prev2 v2 k2
      where "scan_digits base prev2 cs v2 k2 = Some (v', k', rest)"
      by (auto split: if_splits)
    from Cons.IH [OF this] obtain pre
      where "cs = pre @ rest" "\<forall>c \<in> set pre. c = CHR ''_'' \<or> digit_value c < base" by blast
    with True have "c # cs = (c # pre) @ rest \<and>
        (\<forall>x \<in> set (c # pre). x = CHR ''_'' \<or> digit_value x < base)" by simp
    then show ?thesis by blast
  next
    case False
    with Cons.prems have "rest = c # cs" by (auto split: if_splits)
    then show ?thesis by simp
  qed
qed

lemma skip_sign_chars:
  "skip_sign s = (sg, t) \<Longrightarrow> c \<in> set s \<Longrightarrow> c \<in> set t \<or> c = CHR ''+'' \<or> c = CHR ''-''"
  by (cases s) (auto simp: skip_sign_def split: if_splits)

lemma digit_value_zero: "digit_value (CHR ''0'') = 0"
  by (simp add: digit_value_def)

lemma skip_prefix_chars:
  "c \<in> set s \<Longrightarrow> c \<in> set (skip_prefix base s) \<or> literal_char base c"
proof (cases "skip_prefix base s = s")
  case True
  then show "c \<in> set s \<Longrightarrow> ?thesis" by simp
next
  case False
  assume c: "c \<in> set s"
  from False obtain c0 c1 cs where s: "s = c0 # c1 # cs"
    and p: "base = 16" "c0 = CHR ''0''" "c1 = CHR ''x'' \<or> c1 = CHR ''X''"
    by (cases s; cases "tl s") (auto simp: skip_prefix_def split: if_splits)
  from p have "literal_char base c0" "literal_char base c1"
    by (auto simp: literal_char_def digit_value_zero)
  moreover have "x \<in> set cs \<Longrightarrow> x \<in> set (skip_prefix base s) \<or> x = CHR ''_''" for x
    using s p by (cases cs) (auto simp: skip_prefix_def)
  ultimately show ?thesis using c s by (auto simp: literal_char_def)
qed

lemma py_int_chars:
  assumes "py_int s base = Inr n" "c \<in> set s"
  shows "literal_char base c"
proof -
  obtain sg s1 where sg: "skip_sign (dropWhile py_isspace s) = (sg, s1)"
    by (cases "skip_sign (dropWhile py_isspace s)")
  let ?s2 = "skip_prefix base s1"
  from assms(1) sg obtain v k rest where sc: "scan_digits base False ?s2 0 0 = Some (v, k, rest)"
    and rest: "dropWhile py_isspace rest = []"
    by (auto simp: py_int_def Let_def dropWhile_eq_Nil_conv split: if_splits option.splits)
  from scan_digits_chars [OF sc] obtain pre where pre: "?s2 = pre @ rest"
    "\<forall>c \<in> set pre. c = CHR ''_'' \<or> digit_value c < base" by blast
  from rest have r: "\<forall>c \<in> set rest. py_isspace c" by (simp add: dropWhile_eq_Nil_conv)
  have "c \<in> set (takeWhile py_isspace s) \<or> c \<in> set (dropWhile py_isspace s)"
    using assms(2) by (metis Un_iff set_append takeWhile_dropWhile_id)
  then show ?thesis
  proof
    assume "c \<in> set (takeWhile py_isspace s)"
    then have "py_isspace c" by (rule set_takeWhileD [THEN conjunct2])
    then show ?thesis by (simp add: literal_char_def)
  next
    assume "c \<in> set (dropWhile py_isspace s)"
    from skip_sign_chars [OF sg this] consider "c \<in> set s1" | "c = CHR ''+'' \<or> c = CHR ''-''"
      by blast
    then show ?thesis
    proof cases
      case 1
      from skip_prefix_chars [OF this, of base] show ?thesis
      proof
        assume "c \<in> set ?s2"
        with pre r show ?thesis by (auto simp: literal_char_def)
      qed
    next
      case 2
      then show ?thesis by (auto simp: literal_char_def)
    qed
  qed
qed

lemma gid_to_media_id_invalid:
  assumes "c \<in> set g" "\<not> literal_char 16 c"
  shows "gid_to_media_id g = Inl ValueError"
proof (cases "py_int g 16")
  case (Inl e)
  then have "e = ValueError"
    by (auto simp: py_int_def Let_def split: prod.splits if_splits option.splits)
  with Inl show ?thesis by (simp add: gid_to_media_id_def)
next
  case (Inr n)
  from py_int_chars [OF this assms(1)] assms(2) show ?thesis by simp
qed

lemma media_id_to_gid_invalid:
  "\<not> set m \<subseteq> set CHARSET_INVERTED \<Longrightarrow> media_id_to_gid m = Inl ValueError"
  by (simp add: media_id_to_gid_def base62_decode_invalid)

lemma media_id_to_gid_result:
  "(\<exists>r. media_id_to_gid m = Inr r) \<or> media_id_to_gid m = Inl ValueError"
  using media_id_to_gid_invalid [of m] media_id_to_gid_valid [of m] by blast

lemma py_int_result: "(\<exists>n. py_int s base = Inr n) \<or> py_int s base = Inl ValueError"
  by (auto simp: py_int_def Let_def split: prod.splits if_splits option.splits)

lemma gid_to_media_id_result:
  "(\<exists>r. gid_to_media_id g = Inr r) \<or> gid_to_media_id g = Inl ValueError"
  using py_int_result [of g 16] by (auto simp: gid_to_media_id_def)

text \<open>
  Claim C2, as amended, for identifiers that are strings of code points below 256.  A
  malformed input never yields \<open>InvalidIdentifier\<close>, and the 128-bit range is not
  checked:
  \<^item> each direction either returns a value or fails with \<^verbatim>\<open>ValueError\<close>, whatever the
    input;
  \<^item> \<open>to_internal\<close> fails on every input with a character outside the 62-character
    set, and returns a value on every other input; when the decoded value exceeds 128
    bits that value has more than 32 characters;
  \<^item> \<open>to_public\<close> fails on every input with a character that cannot occur in a base-16
    integer literal (a digit below 16, whitespace, a sign, an underscore, \<^verbatim>\<open>x\<close> or
    \<^verbatim>\<open>X\<close>), and returns a value on every non-empty string of lowercase hexadecimal
    digits, whatever its length.
\<close>

theorem transcoder_malformed_input:
  "((\<exists>r. media_id_to_gid m = Inr r) \<or> media_id_to_gid m = Inl ValueError) \<and>
   ((\<exists>r. gid_to_media_id g = Inr r) \<or> gid_to_media_id g = Inl ValueError) \<and>
   media_id_to_gid m \<noteq> Inl InvalidIdentifier \<and> gid_to_media_id g \<noteq> Inl InvalidIdentifier \<and>
   (\<not> set m \<subseteq> set CHARSET_INVERTED \<longrightarrow> media_id_to_gid m = Inl ValueError) \<and>
   (set m \<subseteq> set CHARSET_INVERTED \<longrightarrow> (\<exists>r. media_id_to_gid m = Inr r)) \<and>
   (base62_decode m CHARSET_INVERTED = Inr v \<and> 2 ^ 128 \<le> v
      \<longrightarrow> (\<exists>r. media_id_to_gid m = Inr r \<and> 32 < length r)) \<and>
   ((\<exists>c \<in> set g. \<not> literal_char 16 c) \<longrightarrow> gid_to_media_id g = Inl ValueError) \<and>
   (g \<noteq> [] \<and> set g \<subseteq> set hex_digits \<longrightarrow> (\<exists>r. gid_to_media_id g = Inr r))"
proof (intro conjI)
  show a: "(\<exists>r. media_id_to_gid m = Inr r) \<or> media_id_to_gid m = Inl ValueError"
    by (rule media_id_to_gid_result)
  show b: "(\<exists>r. gid_to_media_id g = Inr r) \<or> gid_to_media_id g = Inl ValueError"
    by (rule gid_to_media_id_result)
  from a show "media_id_to_gid m \<noteq> Inl InvalidIdentifier" by auto
  from b show "gid_to_media_id g \<noteq> Inl InvalidIdentifier" by auto
  show "\<not> set m \<subseteq> set CHARSET_INVERTED \<longrightarrow> media_id_to_gid m = Inl ValueError"
    using media_id_to_gid_invalid [of m] by blast
  show "set m \<subseteq> set CHARSET_INVERTED \<longrightarrow> (\<exists>r. media_id_to_gid m = Inr r)"
    using media_id_to_gid_valid [of m] by blast
  show "base62_decode m CHARSET_INVERTED = Inr v \<and> 2 ^ 128 \<le> v
      \<longrightarrow> (\<exists>r. media_id_to_gid m = Inr r \<and> 32 < length r)"
    using media_id_to_gid_overflow [of m v] by blast
  show "(\<exists>c \<in> set g. \<not> literal_char 16 c) \<longrightarrow> gid_to_media_id g = Inl ValueError"
    using gid_to_media_id_invalid [of _ g] by blast
  show "g \<noteq> [] \<and> set g \<subseteq> set hex_digits \<longrightarrow> (\<exists>r. gid_to_media_id g = Inr r)"
    using gid_to_media_id_hex [of g] by blast
qed

theorem transcoder_malformed_input_witness:
  "\<not> set ''a!'' \<subseteq> set CHARSET_INVERTED \<and> media_id_to_gid ''a!'' = Inl ValueError \<and>
   set ''ZZZZZZZZZZZZZZZZZZZZZZ'' \<subseteq> set CHARSET_INVERTED \<and>
   base62_decode ''ZZZZZZZZZZZZZZZZZZZZZZ'' CHARSET_INVERTED
     = Inr 2707803647802660400290261537185326956543 \<and>
   (2 ^ 128 \<le> (2707803647802660400290261537185326956543 :: int)) \<and>
   (\<exists>r. media_id_to_gid ''ZZZZZZZZZZZZZZZZZZZZZZ'' = Inr r \<and> 32 < length r) \<and>
   (\<exists>c \<in> set ''12g4''. \<not> literal_char 16 c) \<and> gid_to_media_id ''12g4'' = Inl ValueError \<and>
   ''100000000000000000000000000000000'' \<noteq> [] \<and>
   set ''100000000000000000000000000000000'' \<subseteq> set hex_digits \<and>
   (\<exists>r. gid_to_media_id ''100000000000000000000000000000000'' = Inr r) \<and>
   gid_to_media_id [] = Inl ValueError \<and> gid_to_media_id ''0x'' = Inl ValueError \<and>
   gid_to_media_id ''+'' = Inl ValueError \<and> gid_to_media_id ''1__2'' = Inl ValueError \<and>
   media_id_to_gid [] = Inr ''00000000000000000000000000000000''"
proof -
  have 1: "\<not> set ''a!'' \<subseteq> set CHARSET_INVERTED"
    by (simp add: CHARSET_INVERTED_def)
  have 2: "set ''ZZZZZZZZZZZZZZZZZZZZZZ'' \<subseteq> set CHARSET_INVERTED"
    by (simp add: CHARSET_INVERTED_def)
  have 3: "base62_decode ''ZZZZZZZZZZZZZZZZZZZZZZ'' CHARSET_INVERTED
     = Inr 2707803647802660400290261537185326956543"
    by code_simp
  have 4: "2 ^ 128 \<le> (2707803647802660400290261537185326956543 :: int)" by simp
  have 5: "\<exists>c \<in> set ''12g4''. \<not> literal_char 16 c"
    by code_simp
  have 6: "''100000000000000000000000000000000'' \<noteq> [] \<and>
      set ''100000000000000000000000000000000'' \<subseteq> set hex_digits"
    by (simp add: hex_digits_def)
  have 7: "gid_to_media_id [] = Inl ValueError" "gid_to_media_id ''0x'' = Inl ValueError"
    "gid_to_media_id ''+'' = Inl ValueError" "gid_to_media_id ''1__2'' = Inl ValueError"
    "media_id_to_gid [] = Inr ''00000000000000000000000000000000''"
    by code_simp+
  note t = transcoder_malformed_input
  from t [where m = "''a!''", THEN conjunct2, THEN conjunct2, THEN conjunct2, THEN conjunct2,
      THEN conjunct1] 1
  have a: "media_id_to_gid ''a!'' = Inl ValueError" by (rule mp)
  from t [where m = "''ZZZZZZZZZZZZZZZZZZZZZZ''" and v = 2707803647802660400290261537185326956543, THEN conjunct2, THEN conjunct2, THEN conjunct2, THEN conjunct2,
      THEN conjunct2, THEN conjunct2, THEN conjunct1] conjI [OF 3 4]
  have b: "\<exists>r. media_id_to_gid ''ZZZZZZZZZZZZZZZZZZZZZZ'' = Inr r \<and> 32 < length r"
    by (rule mp)
  from t [where g = "''12g4''", THEN conjunct2, THEN conjunct2, THEN conjunct2, THEN conjunct2,
      THEN conjunct2, THEN conjunct2, THEN conjunct2, THEN conjunct1] 5
  have c: "gid_to_media_id ''12g4'' = Inl ValueError" by (rule mp)
  from t [where g = "''100000000000000000000000000000000''", THEN conjunct2, THEN conjunct2, THEN conjunct2, THEN conjunct2,
      THEN conjunct2, THEN conjunct2, THEN conjunct2, THEN conjunct2] 6
  have d: "\<exists>r. gid_to_media_id ''100000000000000000000000000000000'' = Inr r" by (rule mp)
  from 1 a 2 3 4 b 5 c 6 d 7 show ?thesis
    by (intro conjI) (erule conjunct1 conjunct2 | assumption)+
qed

text \<open>
  Claim C2 as the specification words it fails on both kinds of malformed input: the
  out-of-alphabet identifier \<^verbatim>\<open>"a!"\<close> raises \<^verbatim>\<open>ValueError\<close>, and the 22-character
  identifier \<^verbatim>\<open>"ZZZZZZZZZZZZZZZZZZZZZZ"\<close>, whose value \<open>62 ^ 22 - 1\<close> exceeds 128 bits,
  does not fail at all: a 33-character string is returned.
\<close>

theorem transcoder_malformed_input_counterexample:
  "media_id_to_gid ''a!'' = Inl ValueError \<and>
   media_id_to_gid ''a!'' \<noteq> Inl InvalidIdentifier \<and>
   base62_decode ''ZZZZZZZZZZZZZZZZZZZZZZ'' CHARSET_INVERTED
     = Inr 2707803647802660400290261537185326956543 \<and>
   (2 ^ 128 \<le> (2707803647802660400290261537185326956543 :: int)) \<and>
   media_id_to_gid ''ZZZZZZZZZZZZZZZZZZZZZZ'' = Inr ''7f520034c430770c424528c66503fffff''"
  by code_simp

section \<open>Properties of floating-point rounding\<close>

lemma round_half_even_of_int: "round_half_even (of_int k) = k"
  by (simp add: round_half_even_def)

lemma round_half_even_mono: "x \<le> y \<Longrightarrow> round_half_even x \<le> round_half_even y"
proof -
  assume xy: "x \<le> y"
  then have f: "\<lfloor>x\<rfloor> \<le> \<lfloor>y\<rfloor>" by (rule floor_mono)
  have ux: "round_half_even x \<le> \<lfloor>x\<rfloor> + 1" and ly: "\<lfloor>y\<rfloor> \<le> round_half_even y"
    by (simp_all add: round_half_even_def Let_def)
  show ?thesis
  proof (cases "\<lfloor>x\<rfloor> = \<lfloor>y\<rfloor>")
    case True
    with xy show ?thesis by (auto simp: round_half_even_def Let_def)
  next
    case False
    with f have "\<lfloor>x\<rfloor> + 1 \<le> \<lfloor>y\<rfloor>" by simp
    with ux ly show ?thesis by linarith
  qed
qed

lemma round_half_even_le: "x \<le> of_int k \<Longrightarrow> round_half_even x \<le> k"
  using round_half_even_mono [of x "of_int k"] by (simp add: round_half_even_of_int)

lemma round_half_even_ge: "of_int k \<le> x \<Longrightarrow> k \<le> round_half_even x"
  using round_half_even_mono [of "of_int k" x] by (simp add: round_half_even_of_int)

lemma ulp_exponent_ge: "- 1074 \<le> ulp_exponent x"
  by (simp add: ulp_exponent_def)

lemma significand_less: "\<bar>x\<bar> / 2 powi ulp_exponent x < 2 ^ 53"
proof -
  define N where "N = \<lfloor>\<bar>x\<bar> * 2 ^ 1074\<rfloor>"
  define b where "b = bitlen N"
  define k where "k = nat (max (b - 53) 0)"
  have N0: "0 \<le> N" by (simp add: N_def)
  have b0: "0 \<le> b" by (simp add: b_def bitlen_nonneg)
  have q: "ulp_exponent x = int k - 1074"
    by (simp add: ulp_exponent_def N_def b_def k_def)
  have "N + 1 \<le> 2 ^ nat b"
  proof (cases "N = 0")
    case True
    then show ?thesis by (simp add: b_def)
  next
    case False
    with N0 have "0 < N" by simp
    from bitlen_bounds [OF this] show ?thesis by (simp add: b_def)
  qed
  then have "real_of_int (N + 1) \<le> real_of_int (2 ^ nat b)" by (simp only: of_int_le_iff)
  moreover have "\<bar>x\<bar> * 2 ^ 1074 < real_of_int (N + 1)"
    unfolding N_def by linarith
  ultimately have lt: "\<bar>x\<bar> * 2 ^ 1074 < 2 ^ nat b" by simp
  have "nat b \<le> k + 53" by (simp add: k_def)
  then have "(2::real) ^ nat b \<le> 2 ^ (k + 53)" by (intro power_increasing) simp_all
  with lt have "\<bar>x\<bar> * 2 ^ 1074 < 2 ^ k * 2 ^ 53" by (simp add: power_add)
  then have "\<bar>x\<bar> * 2 ^ 1074 / 2 ^ k < 2 ^ 53"
    by (simp add: field_simps)
  moreover have "(2::real) powi ulp_exponent x = 2 ^ k / 2 ^ 1074"
    unfolding q by (simp add: power_int_diff)
  ultimately show ?thesis by (simp add: field_simps)
qed

lemma significand_ge:
  assumes "- 1074 < ulp_exponent x"
  shows "2 ^ 52 \<le> \<bar>x\<bar> / 2 powi ulp_exponent x"
proof -
  define N where "N = \<lfloor>\<bar>x\<bar> * 2 ^ 1074\<rfloor>"
  define b where "b = bitlen N"
  define k where "k = nat (b - 53)"
  from assms have b: "53 < b" by (simp add: ulp_exponent_def N_def b_def)
  then have q: "ulp_exponent x = int k - 1074"
    by (simp add: ulp_exponent_def N_def b_def k_def)
  from b have "0 < N" using bitlen_eq_zero_iff [of N] by (cases "0 < N") (simp_all add: b_def)
  from bitlen_bounds [OF this] have "2 ^ nat (b - 1) \<le> N" by (simp add: b_def)
  then have "real_of_int (2 ^ nat (b - 1)) \<le> real_of_int N" by (simp only: of_int_le_iff)
  then have "(2::real) ^ nat (b - 1) \<le> real_of_int N" by (simp only: of_int_power of_int_numeral)
  moreover have "real_of_int N \<le> \<bar>x\<bar> * 2 ^ 1074" unfolding N_def by (rule of_int_floor_le)
  ultimately have ge: "2 ^ nat (b - 1) \<le> \<bar>x\<bar> * 2 ^ 1074" by (rule order_trans)
  from b have "nat (b - 1) = k + 52" by (simp add: k_def)
  with ge have "2 ^ k * 2 ^ 52 \<le> \<bar>x\<bar> * 2 ^ 1074" by (simp add: power_add)
  then have "2 ^ 52 \<le> \<bar>x\<bar> * 2 ^ 1074 / 2 ^ k" by (simp add: field_simps)
  moreover have "(2::real) powi ulp_exponent x = 2 ^ k / 2 ^ 1074"
    unfolding q by (simp add: power_int_diff)
  ultimately show ?thesis by (simp add: field_simps)
qed

lemma ulp_exponent_mono:
  assumes "\<bar>x\<bar> \<le> \<bar>y\<bar>"
  shows "ulp_exponent x \<le> ulp_exponent y"
proof (rule ccontr)
  assume "\<not> ulp_exponent x \<le> ulp_exponent y"
  then have lt: "ulp_exponent y + 1 \<le> ulp_exponent x" by simp
  with ulp_exponent_ge [of y] have "- 1074 < ulp_exponent x" by simp
  from significand_ge [OF this] have "2 ^ 52 * 2 powi ulp_exponent x \<le> \<bar>x\<bar>"
    by (simp add: field_simps)
  moreover from lt have "(2::real) powi (ulp_exponent y + 1) \<le> 2 powi ulp_exponent x"
    by (intro power_int_increasing) simp_all
  then have "2 ^ 53 * (2::real) powi ulp_exponent y \<le> 2 ^ 52 * 2 powi ulp_exponent x"
    by (simp add: power_int_add)
  moreover from significand_less [of y] have "\<bar>y\<bar> < 2 ^ 53 * 2 powi ulp_exponent y"
    by (simp add: field_simps)
  ultimately show False using assms by linarith
qed

lemma round_to_ulp_mono:
  assumes "0 \<le> x" "x \<le> y"
  shows "round_to_ulp x \<le> round_to_ulp y"
proof -
  let ?qx = "ulp_exponent x" and ?qy = "ulp_exponent y"
  from assms have ax: "\<bar>x\<bar> = x" and ay: "\<bar>y\<bar> = y" by simp_all
  from assms have "?qx \<le> ?qy" by (intro ulp_exponent_mono) simp
  then consider "?qx = ?qy" | "?qx + 1 \<le> ?qy" by linarith
  then show ?thesis
  proof cases
    case 1
    from assms(2) have "x / 2 powi ?qx \<le> y / 2 powi ?qx"
      by (intro divide_right_mono) simp_all
    then have "round_half_even (x / 2 powi ?qx) \<le> round_half_even (y / 2 powi ?qx)"
      by (rule round_half_even_mono)
    then have "real_of_int (round_half_even (x / 2 powi ?qx)) * 2 powi ?qx
        \<le> real_of_int (round_half_even (y / 2 powi ?qx)) * 2 powi ?qx"
      by (intro mult_right_mono) simp_all
    with 1 show ?thesis by (simp add: round_to_ulp_def Let_def)
  next
    case 2
    from significand_less [of x] ax have "x / 2 powi ?qx \<le> real_of_int (2 ^ 53)" by simp
    then have "round_half_even (x / 2 powi ?qx) \<le> 2 ^ 53" by (rule round_half_even_le)
    then have "real_of_int (round_half_even (x / 2 powi ?qx)) \<le> real_of_int (2 ^ 53)"
      by (simp only: of_int_le_iff)
    then have "real_of_int (round_half_even (x / 2 powi ?qx)) * 2 powi ?qx
        \<le> real_of_int (2 ^ 53) * 2 powi ?qx"
      by (intro mult_right_mono) simp_all
    then have a: "round_to_ulp x \<le> 2 ^ 53 * 2 powi ?qx" by (simp add: round_to_ulp_def Let_def)
    from 2 ulp_exponent_ge [of x] have "- 1074 < ?qy" by simp
    from significand_ge [OF this] ay have "real_of_int (2 ^ 52) \<le> y / 2 powi ?qy" by simp
    then have "2 ^ 52 \<le> round_half_even (y / 2 powi ?qy)" by (rule round_half_even_ge)
    then have "real_of_int (2 ^ 52) \<le> real_of_int (round_half_even (y / 2 powi ?qy))"
      by (simp only: of_int_le_iff)
    then have "real_of_int (2 ^ 52) * 2 powi ?qy
        \<le> real_of_int (round_half_even (y / 2 powi ?qy)) * 2 powi ?qy"
      by (intro mult_right_mono) simp_all
    then have b: "2 ^ 52 * 2 powi ?qy \<le> round_to_ulp y" by (simp add: round_to_ulp_def Let_def)
    from 2 have "(2::real) powi (?qx + 1) \<le> 2 powi ?qy"
      by (intro power_int_increasing) simp_all
    then have "2 ^ 53 * (2::real) powi ?qx \<le> 2 ^ 52 * 2 powi ?qy"
      by (simp add: power_int_add)
    with a b show ?thesis by linarith
  qed
qed

lemma round_to_ulp_exact:
  assumes "\<bar>n\<bar> < 2 ^ 53" "- 1074 \<le> j"
  shows "round_to_ulp (real_of_int n * 2 powi j) = real_of_int n * 2 powi j"
proof -
  let ?x = "real_of_int n * 2 powi j"
  let ?q = "ulp_exponent ?x"
  have ax: "\<bar>?x\<bar> = real_of_int \<bar>n\<bar> * 2 powi j" by (simp add: abs_mult)
  have "?q \<le> j"
  proof (rule ccontr)
    assume "\<not> ?q \<le> j"
    then have lt: "j + 1 \<le> ?q" by simp
    with assms(2) have "- 1074 < ?q" by simp
    from significand_ge [OF this] have "2 ^ 52 * 2 powi ?q \<le> \<bar>?x\<bar>"
      by (simp add: field_simps)
    moreover from lt have "(2::real) powi (j + 1) \<le> 2 powi ?q"
      by (intro power_int_increasing) simp_all
    then have "2 ^ 53 * (2::real) powi j \<le> 2 ^ 52 * 2 powi ?q"
      by (simp add: power_int_add)
    ultimately have "2 ^ 53 * (2::real) powi j \<le> real_of_int \<bar>n\<bar> * 2 powi j"
      unfolding ax by linarith
    then have "(2::real) ^ 53 \<le> real_of_int \<bar>n\<bar>" by simp
    moreover from assms(1) have "real_of_int \<bar>n\<bar> < real_of_int (2 ^ 53)"
      by (simp only: of_int_less_iff)
    ultimately show False by simp
  qed
  then obtain d where d: "j = ?q + int d" by (metis zle_iff_zadd)
  have "?x / 2 powi ?q = real_of_int n * 2 ^ d"
    by (subst d) (simp add: power_int_add)
  also have "\<dots> = real_of_int (n * 2 ^ d)" by simp
  finally have "round_half_even (?x / 2 powi ?q) = n * 2 ^ d"
    by (simp only: round_half_even_of_int)
  then have "round_to_ulp ?x = real_of_int (n * 2 ^ d) * 2 powi ?q"
    by (simp add: round_to_ulp_def Let_def)
  also have "\<dots> = ?x" by (subst (2) d) (simp add: power_int_add)
  finally show ?thesis .
qed

lemma round_to_ulp_of_int: "\<bar>n\<bar> < 2 ^ 53 \<Longrightarrow> round_to_ulp (real_of_int n) = real_of_int n"
  using round_to_ulp_exact [of n 0] by simp



lemma round_to_ulp_zero: "round_to_ulp 0 = 0"
  using round_to_ulp_of_int [of 0] by simp

lemma round_to_ulp_nonneg: "0 \<le> x \<Longrightarrow> 0 \<le> round_to_ulp x"
  using round_to_ulp_mono [of 0 x] by (simp add: round_to_ulp_zero)

lemma round_binary64_Float:
  "- (2 ^ 1024) < round_to_ulp x \<Longrightarrow> round_to_ulp x < 2 ^ 1024 \<Longrightarrow>
   round_binary64 x = Float (round_to_ulp x)"
  by (simp add: round_binary64_def Let_def)

lemma round_binary64_cases:
  assumes "0 \<le> x"
  shows "round_binary64 x = PosInf \<or> round_binary64 x = Float (round_to_ulp x)"
  using round_to_ulp_nonneg [OF assms] by (simp add: round_binary64_def Let_def)

text \<open>
  The comparison of \<^verbatim>\<open>_refresh_session_auth\<close> at a clock not after, and at a clock not
  before, a time \<open>c\<close> that is a float and whose product with 1000 is a float.
\<close>

lemma timestamp_now_less:
  assumes "0 \<le> clock s" "clock s \<le> c" "round_to_ulp c = c"
    and "round_to_ulp (c * 1000) = c * 1000" "c * 1000 < real_of_int e" "c * 1000 < 2 ^ 1024"
  shows "float_lt_int (timestamp_now s) e"
proof -
  define t where "t = round_to_ulp (clock s)"
  have t0: "0 \<le> t" unfolding t_def using assms(1) by (rule round_to_ulp_nonneg)
  have tc: "t \<le> c" using round_to_ulp_mono [OF assms(1,2)] assms(3) by (simp add: t_def)
  from t0 tc have "c \<le> c * 1000" by simp
  with tc assms(6) have "t < 2 ^ 1024" by linarith
  with t0 have tt: "time_time s = Float t"
    unfolding time_time_def t_def by (intro round_binary64_Float) simp_all
  define u where "u = round_to_ulp (t * 1000)"
  from t0 have u0: "0 \<le> u" unfolding u_def by (intro round_to_ulp_nonneg) simp
  from t0 tc have "round_to_ulp (t * 1000) \<le> round_to_ulp (c * 1000)"
    by (intro round_to_ulp_mono) simp_all
  with assms(4) have uc: "u \<le> c * 1000" by (simp add: u_def)
  with assms(6) u0 have "round_binary64 (t * 1000) = Float u"
    unfolding u_def by (intro round_binary64_Float) simp_all
  with tt uc assms(5) show ?thesis by (simp add: timestamp_now_def)
qed

lemma timestamp_now_not_less:
  assumes "c \<le> clock s" "0 \<le> c" "round_to_ulp c = c"
    and "round_to_ulp (c * 1000) = c * 1000" "real_of_int e \<le> c * 1000"
  shows "\<not> float_lt_int (timestamp_now s) e"
proof -
  define t where "t = round_to_ulp (clock s)"
  from assms(1,2) have c0: "0 \<le> clock s" by simp
  have ct: "c \<le> t" using round_to_ulp_mono [OF assms(2,1)] assms(3) by (simp add: t_def)
  from round_binary64_cases [OF c0]
  consider "time_time s = PosInf" | "time_time s = Float t" by (auto simp: time_time_def t_def)
  then show ?thesis
  proof cases
    case 1
    then show ?thesis by (simp add: timestamp_now_def)
  next
    case 2
    define u where "u = round_to_ulp (t * 1000)"
    from ct assms(2) have "round_to_ulp (c * 1000) \<le> round_to_ulp (t * 1000)"
      by (intro round_to_ulp_mono) simp_all
    with assms(4,5) have eu: "real_of_int e \<le> u" by (simp add: u_def)
    from ct assms(2) have "0 \<le> t * 1000" by simp
    from round_binary64_cases [OF this]
    have "round_binary64 (t * 1000) = PosInf \<or> round_binary64 (t * 1000) = Float u"
      by (simp add: u_def)
    with 2 eu show ?thesis by (auto simp: timestamp_now_def)
  qed
qed






lemma edge_less: "5188146770730811 / 2 ^ 59 * 1000 < (9::real)"
  by simp
text \<open>
  With an expiry of 3600000 ms: up to 3599.875 s the comparison finds the token valid,
  from 3600 s on it finds it expired.
\<close>

lemma exact_times:
  "round_to_ulp 3599.875 = 3599.875"
  "round_to_ulp (3599.875 * 1000) = 3599.875 * 1000"
  "round_to_ulp 3600 = 3600"
  "round_to_ulp (3600 * 1000) = 3600 * 1000"
proof -
  show "round_to_ulp 3599.875 = 3599.875"
    using round_to_ulp_exact [of 28799 "- 3"] by simp
  show "round_to_ulp (3599.875 * 1000) = 3599.875 * 1000"
    using round_to_ulp_of_int [of 3599875] by simp
  show "round_to_ulp 3600 = 3600"
    using round_to_ulp_of_int [of 3600] by simp
  show "round_to_ulp (3600 * 1000) = 3600 * 1000"
    using round_to_ulp_of_int [of 3600000] by simp
qed

lemma token_valid:
  assumes "0 \<le> clock s" "clock s \<le> 3599.875"
  shows "float_lt_int (timestamp_now s) 3600000"
  using assms exact_times(1,2) by (rule timestamp_now_less) simp_all

lemma token_expired:
  assumes "3600 \<le> clock s"
  shows "\<not> float_lt_int (timestamp_now s) 3600000"
  using assms _ exact_times(3,4) by (rule timestamp_now_not_less) simp_all

section \<open>Properties of the session manager\<close>

subsection \<open>What a step leaves unchanged\<close>

lemma renewed_refl: "renewed s s"
  by (simp add: renewed_def)

lemma renewed_trans: "renewed s s1 \<Longrightarrow> renewed s1 s2 \<Longrightarrow> renewed s s2"
  by (simp add: renewed_def)

lemma other_headers_update:
  "other_headers (hdr_update hs ''Authorization'' v) = other_headers hs"
  by (induction hs) (auto simp: other_headers_def)

lemma hdr_get_update: "hdr_get (hdr_update hs k v) k = Some v"
  by (induction hs) auto

lemma hdr_get_update_other:
  "lower h \<noteq> lower k \<Longrightarrow> hdr_get (hdr_update hs k v) h = hdr_get hs h"
  by (induction hs) auto

lemma bind_io_Inl [simp]: "bind_io (Inl e, s) f = (Inl e, s)"
  by (simp add: bind_io_def)

lemma bind_io_Inr [simp]: "bind_io (Inr x, s) f = f x s"
  by (simp add: bind_io_def)

lemma bind_exn_Inl [simp]: "bind_exn (Inl e) f = Inl e"
  by (simp add: bind_exn_def)

lemma bind_exn_Inr [simp]: "bind_exn (Inr x) f = f x"
  by (simp add: bind_exn_def)

lemma bind_io_renewed:
  assumes "renewed s (snd r)" "\<And>x s1. renewed s s1 \<Longrightarrow> renewed s (snd (f x s1))"
  shows "renewed s (snd (bind_io r f))"
  using assms by (cases r; cases "fst r") (auto simp: bind_io_def)

lemma session_request_state:
  "snd (session_request env m u b s)
     = s\<lparr>cookies := stored (remote env (clock s)
            \<lparr>http_method = m, url = u, req_headers = headers s, req_cookies = cookies s, req_body = b\<rparr>)
            (cookies s),
          clock := clock s + took (remote env (clock s)
            \<lparr>http_method = m, url = u, req_headers = headers s, req_cookies = cookies s, req_body = b\<rparr>),
          sent := sent s @ [(clock s,
            \<lparr>http_method = m, url = u, req_headers = headers s, req_cookies = cookies s, req_body = b\<rparr>)]\<rparr>"
  by (simp add: session_request_def Let_def)

lemma session_get_state:
  "snd (session_get env u s)
     = s\<lparr>cookies := stored (remote env (clock s) (get_request s u)) (cookies s),
          clock := clock s + took (remote env (clock s) (get_request s u)),
          sent := sent s @ [(clock s, get_request s u)]\<rparr>"
  by (simp add: session_get_def session_request_state get_request_def)

lemma session_get_renewed: "renewed s (snd (session_get env u s))"
  by (simp add: session_get_def session_request_state renewed_def)

lemma session_get_sent:
  "sent (snd (session_get env u s))
     = sent s @ [(clock s, \<lparr>http_method = GET, url = u, req_headers = headers s,
                             req_cookies = cookies s, req_body = []\<rparr>)]"
  by (simp add: session_get_def session_request_state)

lemma get_home_page_state:
  "snd (get_home_page env s) = snd (session_get env SPOTIFY_HOME_PAGE_URL s)"
  by (cases "session_get env SPOTIFY_HOME_PAGE_URL s"; cases "fst (session_get env SPOTIFY_HOME_PAGE_URL s)")
     (auto simp: get_home_page_def bind_io_def split: sum.splits)

lemma get_home_page_renewed: "renewed s (snd (get_home_page env s))"
  by (simp add: get_home_page_state session_get_renewed)

lemma get_home_page_sent:
  "sent (snd (get_home_page env s)) = sent s @ [(clock s, home_request s)]"
  by (simp add: get_home_page_state session_get_sent home_request_def get_request_def)

lemma get_home_page_effect:
  "snd (get_home_page env s)
     = s\<lparr>cookies := stored (remote env (clock s) (home_request s)) (cookies s),
          clock := clock s + took (remote env (clock s) (home_request s)),
          sent := sent s @ [(clock s, home_request s)]\<rparr>"
  by (simp add: get_home_page_state session_get_state home_request_def)

lemma set_session_auth_after_home:
  assumes "get_home_page env s = (r, s1)"
  shows "renewed s1 (snd (set_session_auth env s)) \<and> sent (snd (set_session_auth env s)) = sent s1"
proof (cases r)
  case (Inl e)
  with assms show ?thesis by (simp add: set_session_auth_def renewed_refl)
next
  case (Inr home_page)
  with assms show ?thesis
    by (auto simp: set_session_auth_def bind_io_def renewed_def other_headers_update
        split: sum.splits)
qed

lemma set_session_auth_renewed: "renewed s (snd (set_session_auth env s))"
proof -
  obtain r s1 where h: "get_home_page env s = (r, s1)" by (cases "get_home_page env s")
  then have "renewed s s1" using get_home_page_renewed [of s env] by simp
  with set_session_auth_after_home [OF h] show ?thesis by (blast intro: renewed_trans)
qed


lemma set_session_auth_cookies:
  "cookies (snd (set_session_auth env s))
     = stored (remote env (clock s) (home_request s)) (cookies s)"
proof -
  obtain r s1 where h: "get_home_page env s = (r, s1)" by (cases "get_home_page env s")
  then have s1: "cookies s1 = stored (remote env (clock s) (home_request s)) (cookies s)"
    using get_home_page_effect [of env s] by simp
  show ?thesis
  proof (cases r)
    case (Inl e)
    with h s1 show ?thesis by (simp add: set_session_auth_def)
  next
    case (Inr home_page)
    with h s1 show ?thesis
      by (auto simp: set_session_auth_def bind_io_def split: sum.splits)
  qed
qed

lemma refresh_session_auth_cases:
  "refresh_session_auth env s =
     (case timestamp_session_expire s of
        Inl e \<Rightarrow> (Inl e, s)
      | Inr t \<Rightarrow> if float_lt_int (timestamp_now s) t then (Inr (), s) else set_session_auth env s)"
  by (simp add: refresh_session_auth_def bind_io_def split: sum.splits)

lemma refresh_session_auth_renewed: "renewed s (snd (refresh_session_auth env s))"
  by (simp add: refresh_session_auth_cases renewed_refl set_session_auth_renewed split: sum.splits)

subsection \<open>Renewal\<close>

lemma set_session_auth_success:
  assumes "set_session_auth env s = (Inr (), s1)"
  shows "\<exists>home_page session config token.
           fst (get_home_page env s) = Inr home_page \<and>
           embedded_json env SESSION_OPEN home_page = Inr session \<and>
           embedded_json env CONFIG_OPEN home_page = Inr config \<and>
           getitem session ''accessToken'' = Inr token \<and>
           s1 = (snd (get_home_page env s))
                  \<lparr>session_info := session, config_info := config,
                   headers := hdr_update (headers s) ''Authorization''
                     (''Bearer '' @ py_format (py_repr env) token)\<rparr>"
proof -
  obtain r s0 where h: "get_home_page env s = (r, s0)" by (cases "get_home_page env s")
  have hs: "headers s0 = headers s"
    using h get_home_page_effect [of env s] by simp
  from assms h hs show ?thesis
    by (cases r) (auto simp: set_session_auth_def bind_io_def split: sum.splits)
qed

lemma fetch_state:
  "snd (bind_io (session_get env u s) (\<lambda>response s.
        bind_io (check_response response, s) (\<lambda>_ s. (response_json env response, s))))
     = snd (session_get env u s)"
  by (cases "session_get env u s"; cases "fst (session_get env u s)")
     (auto simp: bind_io_def split: sum.splits)



subsection \<open>The small world\<close>

lemma demo_texts_distinct:
  "demo_config_text \<noteq> demo_session_text"
  "demo_album_text \<noteq> demo_session_text" "demo_album_text \<noteq> demo_config_text"
  "demo_page2_text \<noteq> demo_session_text" "demo_page2_text \<noteq> demo_config_text"
  "demo_page2_text \<noteq> demo_album_text"
  "demo_page3_text \<noteq> demo_session_text" "demo_page3_text \<noteq> demo_config_text"
  "demo_page3_text \<noteq> demo_album_text" "demo_page3_text \<noteq> demo_page2_text"
  "demo_broken_text \<noteq> demo_session_text" "demo_broken_text \<noteq> demo_config_text"
  "demo_broken_text \<noteq> demo_album_text" "demo_broken_text \<noteq> demo_page2_text"
  "demo_broken_text \<noteq> demo_page3_text"
  by (simp_all add: demo_session_text_def demo_config_text_def demo_album_text_def
      demo_page2_text_def demo_page3_text_def demo_broken_text_def)

lemma demo_loads_simps:
  "demo_loads demo_session_text = Some demo_session"
  "demo_loads demo_config_text = Some demo_config"
  "demo_loads demo_album_text = Some demo_album"
  "demo_loads demo_page2_text = Some demo_page2"
  "demo_loads demo_page3_text = Some demo_page3"
  "demo_loads demo_broken_text = Some demo_broken_page"
  by (simp_all add: demo_loads_def demo_texts_distinct)

lemma demo_home_page_search:
  "re_search SESSION_OPEN SCRIPT_CLOSE demo_home_page = Some demo_session_text"
  "re_search CONFIG_OPEN SCRIPT_CLOSE demo_home_page = Some demo_config_text"
  by code_simp+

lemma bare_home_page_search:
  "re_search SESSION_OPEN SCRIPT_CLOSE bare_home_page = None"
  "re_search CONFIG_OPEN SCRIPT_CLOSE bare_home_page = None"
  by code_simp+

lemma demo_urls_distinct:
  "METADATA_API_URL ''albums'' ''A'' \<noteq> SPOTIFY_HOME_PAGE_URL"
  "demo_page2_url \<noteq> SPOTIFY_HOME_PAGE_URL" "demo_page2_url \<noteq> METADATA_API_URL ''albums'' ''A''"
  "demo_page3_url \<noteq> SPOTIFY_HOME_PAGE_URL" "demo_page3_url \<noteq> METADATA_API_URL ''albums'' ''A''"
  "demo_page3_url \<noteq> demo_page2_url"
  "METADATA_API_URL ''tracks'' ''T'' \<noteq> SPOTIFY_HOME_PAGE_URL"
  "METADATA_API_URL ''tracks'' ''T'' \<noteq> METADATA_API_URL ''albums'' ''A''"
  "METADATA_API_URL ''tracks'' ''T'' \<noteq> demo_page2_url"
  "METADATA_API_URL ''tracks'' ''T'' \<noteq> demo_page3_url"
  "LYRICS_API_URL ''T'' \<noteq> SPOTIFY_HOME_PAGE_URL"
  "LYRICS_API_URL ''T'' \<noteq> METADATA_API_URL ''albums'' ''A''"
  "LYRICS_API_URL ''T'' \<noteq> demo_page2_url"
  "LYRICS_API_URL ''T'' \<noteq> demo_page3_url"
  "demo_broken_url \<noteq> SPOTIFY_HOME_PAGE_URL"
  "demo_broken_url \<noteq> METADATA_API_URL ''albums'' ''A''"
  "demo_broken_url \<noteq> demo_page2_url" "demo_broken_url \<noteq> demo_page3_url"
  "demo_missing_url \<noteq> SPOTIFY_HOME_PAGE_URL"
  "demo_missing_url \<noteq> METADATA_API_URL ''albums'' ''A''"
  "demo_missing_url \<noteq> demo_page2_url" "demo_missing_url \<noteq> demo_page3_url"
  "demo_missing_url \<noteq> demo_broken_url"
  "METADATA_API_URL ''tracks'' ''T'' \<noteq> demo_broken_url"
  "LYRICS_API_URL ''T'' \<noteq> demo_broken_url"
  by (simp_all add: METADATA_API_URL_def SPOTIFY_HOME_PAGE_URL_def demo_page2_url_def
      demo_page3_url_def LYRICS_API_URL_def demo_broken_url_def demo_missing_url_def)

lemma demo_env_simps:
  "remote (demo_env page) = demo_remote page"
  "json_loads (demo_env page) = demo_loads"
  "py_repr (demo_env page) = (\<lambda>v. ''?'')"
  by (simp_all add: demo_env_def)

lemma demo_session_get:
  "session_get (demo_env page) SPOTIFY_HOME_PAGE_URL s
     = (Inr \<lparr>status_code = 200, resp_text = page\<rparr>,
        s\<lparr>clock := clock s + 0.1, sent := sent s @ [(clock s, home_request s)]\<rparr>)"
  "session_get (demo_env page) (METADATA_API_URL ''albums'' ''A'') s
     = (Inr \<lparr>status_code = 200, resp_text = demo_album_text\<rparr>,
        s\<lparr>clock := clock s + 0.1,
          sent := sent s @ [(clock s, get_request s (METADATA_API_URL ''albums'' ''A''))]\<rparr>)"
  "session_get (demo_env page) demo_page2_url s
     = (Inr \<lparr>status_code = 200, resp_text = demo_page2_text\<rparr>,
        s\<lparr>clock := clock s + 0.1, sent := sent s @ [(clock s, get_request s demo_page2_url)]\<rparr>)"
  "session_get (demo_env page) demo_page3_url s
     = (Inr \<lparr>status_code = 200, resp_text = demo_page3_text\<rparr>,
        s\<lparr>clock := clock s + 0.1, sent := sent s @ [(clock s, get_request s demo_page3_url)]\<rparr>)"
  "session_get (demo_env page) (METADATA_API_URL ''tracks'' ''T'') s
     = (Inr \<lparr>status_code = 404, resp_text = ''Not found''\<rparr>,
        s\<lparr>clock := clock s + 0.1,
          sent := sent s @ [(clock s, get_request s (METADATA_API_URL ''tracks'' ''T''))]\<rparr>)"
  "session_get (demo_env page) (LYRICS_API_URL ''T'') s
     = (Inr \<lparr>status_code = 404, resp_text = ''Not found''\<rparr>,
        s\<lparr>clock := clock s + 0.1,
          sent := sent s @ [(clock s, get_request s (LYRICS_API_URL ''T''))]\<rparr>)"
  by (simp_all add: session_get_def session_request_def demo_env_simps demo_remote_def Let_def
      ok_reply_def not_found_def home_request_def get_request_def demo_urls_distinct)

lemma demo_get_home_page:
  "get_home_page (demo_env page) s
     = (Inr page, s\<lparr>clock := clock s + 0.1, sent := sent s @ [(clock s, home_request s)]\<rparr>)"
  by (simp add: get_home_page_def demo_session_get check_response_def)

lemma demo_set_session_auth:
  "set_session_auth (demo_env demo_home_page) s
     = (Inr (), s\<lparr>clock := clock s + 0.1, sent := sent s @ [(clock s, home_request s)],
          session_info := demo_session, config_info := demo_config,
          headers := hdr_update (headers s) ''Authorization'' ''Bearer NEW''\<rparr>)"
  by (simp add: set_session_auth_def get_home_page_def demo_session_get check_response_def
      embedded_json_def demo_home_page_search demo_env_simps demo_loads_simps demo_session_def)

lemma demo_state_expire: "timestamp_session_expire (demo_state t) = Inr 3600000"
  by (simp add: timestamp_session_expire_def demo_state_def)



lemma cookie_set_session_auth:
  "set_session_auth cookie_env s
     = (Inr (), s\<lparr>cookies := set_cookie (''sp_dc'', ''rotated'', ''.spotify.com'') (cookies s),
          clock := clock s + 0.1, sent := sent s @ [(clock s, home_request s)],
          session_info := demo_session, config_info := demo_config,
          headers := hdr_update (headers s) ''Authorization'' ''Bearer NEW''\<rparr>)"
  by (simp add: set_session_auth_def get_home_page_def session_get_def session_request_def
      cookie_env_def cookie_remote_def ok_reply_def Let_def check_response_def
      embedded_json_def demo_home_page_search demo_loads_simps demo_session_def
      home_request_def get_request_def)

text \<open>
  Claim C9, as amended.  A renewal works on the existing session.  Whatever the landing
  page and however the renewal ends, every header other than \<^verbatim>\<open>Authorization\<close> (names
  compared without regard to case) and the album cache are after \<^verbatim>\<open>_set_session_auth\<close>
  and after \<^verbatim>\<open>_refresh_session_auth\<close> what they were before, and the cookie jar is what
  the landing-page exchange has made of it: the jar as it was when the server sets no
  cookie.  A renewal that succeeds changes the state in exactly this way: the jar, the
  clock and the record of requests as the landing-page exchange leaves them, the whole
  attribute \<^verbatim>\<open>session_info\<close> and the attribute \<^verbatim>\<open>config_info\<close> replaced by the
  documents of the landing page, and the \<^verbatim>\<open>Authorization\<close> header set to the new
  token.  \<^verbatim>\<open>_refresh_session_auth\<close> either is such a run of \<^verbatim>\<open>_set_session_auth\<close> or
  leaves the state as it is.
\<close>

theorem renewal_effect_on_session:
  "other_headers (headers (snd (set_session_auth env s))) = other_headers (headers s) \<and>
   cache (snd (set_session_auth env s)) = cache s \<and>
   cookies (snd (set_session_auth env s))
     = stored (remote env (clock s) (home_request s)) (cookies s) \<and>
   (\<forall>s1. set_session_auth env s = (Inr (), s1) \<longrightarrow>
      (\<exists>home_page session config token.
         fst (get_home_page env s) = Inr home_page \<and>
         embedded_json env SESSION_OPEN home_page = Inr session \<and>
         embedded_json env CONFIG_OPEN home_page = Inr config \<and>
         getitem session ''accessToken'' = Inr token \<and>
         s1 = s\<lparr>cookies := stored (remote env (clock s) (home_request s)) (cookies s),
                clock := clock s + took (remote env (clock s) (home_request s)),
                sent := sent s @ [(clock s, home_request s)],
                session_info := session, config_info := config,
                headers := hdr_update (headers s) ''Authorization''
                  (''Bearer '' @ py_format (py_repr env) token)\<rparr>)) \<and>
   other_headers (headers (snd (refresh_session_auth env s))) = other_headers (headers s) \<and>
   cache (snd (refresh_session_auth env s)) = cache s \<and>
   (refresh_session_auth env s = set_session_auth env s \<or>
    snd (refresh_session_auth env s) = s)"
proof (intro conjI allI impI)
  show "other_headers (headers (snd (set_session_auth env s))) = other_headers (headers s)"
    and "cache (snd (set_session_auth env s)) = cache s"
    using set_session_auth_renewed [of s env] by (simp_all add: renewed_def)
  show "cookies (snd (set_session_auth env s))
      = stored (remote env (clock s) (home_request s)) (cookies s)"
    by (rule set_session_auth_cookies)
  show "other_headers (headers (snd (refresh_session_auth env s))) = other_headers (headers s)"
    and "cache (snd (refresh_session_auth env s)) = cache s"
    using refresh_session_auth_renewed [of s env] by (simp_all add: renewed_def)
  show "refresh_session_auth env s = set_session_auth env s \<or>
      snd (refresh_session_auth env s) = s"
    by (simp add: refresh_session_auth_cases split: sum.splits)
next
  fix s1
  assume "set_session_auth env s = (Inr (), s1)"
  from set_session_auth_success [OF this]
  show "\<exists>home_page session config token.
      fst (get_home_page env s) = Inr home_page \<and>
      embedded_json env SESSION_OPEN home_page = Inr session \<and>
      embedded_json env CONFIG_OPEN home_page = Inr config \<and>
      getitem session ''accessToken'' = Inr token \<and>
      s1 = s\<lparr>cookies := stored (remote env (clock s) (home_request s)) (cookies s),
             clock := clock s + took (remote env (clock s) (home_request s)),
             sent := sent s @ [(clock s, home_request s)],
             session_info := session, config_info := config,
             headers := hdr_update (headers s) ''Authorization''
               (''Bearer '' @ py_format (py_repr env) token)\<rparr>"
    unfolding get_home_page_effect by blast
qed

theorem renewal_effect_on_session_witness:
  "set_session_auth (demo_env demo_home_page) (demo_state 4000)
     = (Inr (), (demo_state 4000)
          \<lparr>clock := 4000.1, sent := [(4000, home_request (demo_state 4000))],
           session_info := demo_session, config_info := demo_config,
           headers := [(''accept'', ''application/json''), (''Authorization'', ''Bearer NEW'')]\<rparr>) \<and>
   (\<exists>home_page session config token.
      fst (get_home_page (demo_env demo_home_page) (demo_state 4000)) = Inr home_page \<and>
      embedded_json (demo_env demo_home_page) SESSION_OPEN home_page = Inr session \<and>
      embedded_json (demo_env demo_home_page) CONFIG_OPEN home_page = Inr config \<and>
      getitem session ''accessToken'' = Inr token \<and>
      (demo_state 4000)
        \<lparr>clock := 4000.1, sent := [(4000, home_request (demo_state 4000))],
         session_info := demo_session, config_info := demo_config,
         headers := [(''accept'', ''application/json''), (''Authorization'', ''Bearer NEW'')]\<rparr>
      = (demo_state 4000)
          \<lparr>cookies := stored (remote (demo_env demo_home_page) (clock (demo_state 4000))
                        (home_request (demo_state 4000))) (cookies (demo_state 4000)),
           clock := clock (demo_state 4000)
             + took (remote (demo_env demo_home_page) (clock (demo_state 4000))
                 (home_request (demo_state 4000))),
           sent := sent (demo_state 4000) @ [(clock (demo_state 4000), home_request (demo_state 4000))],
           session_info := session, config_info := config,
           headers := hdr_update (headers (demo_state 4000)) ''Authorization''
             (''Bearer '' @ py_format (py_repr (demo_env demo_home_page)) token)\<rparr>) \<and>
   cookies (snd (set_session_auth (demo_env demo_home_page) (demo_state 4000)))
     = [(''sp_dc'', ''secret'', ''.spotify.com'')] \<and>
   other_headers (headers (snd (set_session_auth (demo_env demo_home_page) (demo_state 4000))))
     = [(''accept'', ''application/json'')]"
proof -
  let ?E = "demo_env demo_home_page"
  let ?s = "demo_state 4000"
  let ?s1 = "?s\<lparr>clock := 4000.1, sent := [(4000, home_request ?s)],
      session_info := demo_session, config_info := demo_config,
      headers := [(''accept'', ''application/json''), (''Authorization'', ''Bearer NEW'')]\<rparr>"
  have ok: "set_session_auth ?E ?s = (Inr (), ?s1)"
    by (simp add: demo_set_session_auth) (simp add: demo_state_def lower_def)
  note t = renewal_effect_on_session [of ?E ?s]
  from t have "\<forall>s1. set_session_auth ?E ?s = (Inr (), s1) \<longrightarrow>
      (\<exists>home_page session config token.
         fst (get_home_page ?E ?s) = Inr home_page \<and>
         embedded_json ?E SESSION_OPEN home_page = Inr session \<and>
         embedded_json ?E CONFIG_OPEN home_page = Inr config \<and>
         getitem session ''accessToken'' = Inr token \<and>
         s1 = ?s\<lparr>cookies := stored (remote ?E (clock ?s) (home_request ?s)) (cookies ?s),
                clock := clock ?s + took (remote ?E (clock ?s) (home_request ?s)),
                sent := sent ?s @ [(clock ?s, home_request ?s)],
                session_info := session, config_info := config,
                headers := hdr_update (headers ?s) ''Authorization''
                  (''Bearer '' @ py_format (py_repr ?E) token)\<rparr>)"
    by (elim conjE)
  from this [THEN spec, THEN mp, OF ok]
  have a: "\<exists>home_page session config token.
      fst (get_home_page ?E ?s) = Inr home_page \<and>
      embedded_json ?E SESSION_OPEN home_page = Inr session \<and>
      embedded_json ?E CONFIG_OPEN home_page = Inr config \<and>
      getitem session ''accessToken'' = Inr token \<and>
      ?s1 = ?s\<lparr>cookies := stored (remote ?E (clock ?s) (home_request ?s)) (cookies ?s),
             clock := clock ?s + took (remote ?E (clock ?s) (home_request ?s)),
             sent := sent ?s @ [(clock ?s, home_request ?s)],
             session_info := session, config_info := config,
             headers := hdr_update (headers ?s) ''Authorization''
               (''Bearer '' @ py_format (py_repr ?E) token)\<rparr>" .
  from t have "cookies (snd (set_session_auth ?E ?s))
      = stored (remote ?E (clock ?s) (home_request ?s)) (cookies ?s)"
    by (elim conjE)
  then have b: "cookies (snd (set_session_auth ?E ?s)) = [(''sp_dc'', ''secret'', ''.spotify.com'')]"
    by (simp add: demo_env_simps demo_remote_def home_request_def get_request_def ok_reply_def
        demo_state_def)
  from t have "other_headers (headers (snd (set_session_auth ?E ?s))) = other_headers (headers ?s)"
    by (elim conjE)
  then have c: "other_headers (headers (snd (set_session_auth ?E ?s)))
      = [(''accept'', ''application/json'')]"
    by (simp add: demo_state_def other_headers_def lower_def)
  from ok a b c show ?thesis by (intro conjI)
qed

text \<open>
  Claim C9 as the specification words it has a renewal replace only the token, its
  expiry and the \<^verbatim>\<open>Authorization\<close> header, and leave the cookie jar unchanged.  In a
  world whose server sets the cookie \<^verbatim>\<open>sp_dc\<close> with the landing page, a renewal of a
  session whose token has expired leaves another cookie jar than it found, and it
  replaces the attribute \<^verbatim>\<open>config_info\<close> as well.
\<close>

theorem renewal_replaces_cookies_and_config_counterexample:
  "timestamp_session_expire stale_state = Inr 3600000 \<and>
   \<not> float_lt_int (timestamp_now stale_state) 3600000 \<and>
   fst (refresh_session_auth cookie_env stale_state) = Inr () \<and>
   cookies stale_state = [(''sp_dc'', ''secret'', ''.spotify.com'')] \<and>
   cookies (snd (refresh_session_auth cookie_env stale_state))
     = [(''sp_dc'', ''rotated'', ''.spotify.com'')] \<and>
   config_info stale_state = JObj [(''market'', JStr ''US'')] \<and>
   config_info (snd (refresh_session_auth cookie_env stale_state))
     = JObj [(''market'', JStr ''DE'')]"
proof -
  have e: "timestamp_session_expire stale_state = Inr 3600000"
    by (simp add: stale_state_def timestamp_session_expire_def demo_state_def)
  have x: "\<not> float_lt_int (timestamp_now stale_state) 3600000"
    by (rule token_expired) (simp add: stale_state_def demo_state_def)
  from e x have "refresh_session_auth cookie_env stale_state
      = set_session_auth cookie_env stale_state"
    by (simp add: refresh_session_auth_cases)
  with e x show ?thesis
    by (simp add: cookie_set_session_auth) (simp add: stale_state_def demo_state_def demo_config_def)
qed

subsection \<open>A landing page without the embedded documents\<close>

lemma get_home_page_result:
  assumes "get_home_page env s = (r, s1)"
  shows "sent s1 = sent s @ [(clock s, home_request s)]" "headers s1 = headers s"
    "session_info s1 = session_info s"
  using assms get_home_page_state [of env s] get_home_page_sent [of env s]
  by (simp_all add: session_get_def session_request_state)

text \<open>
  Claim C8, as amended.  When the landing page has been fetched and the search for the
  session document finds nothing, or the session document is found and decoded and the
  search for the config document finds nothing, \<^verbatim>\<open>_set_session_auth\<close> ends with the
  \<^verbatim>\<open>AttributeError\<close> of calling \<^verbatim>\<open>group\<close> on \<^verbatim>\<open>None\<close>.  Nothing else is tried:
  the landing-page request is the only request sent, and the headers are left as they
  were.
\<close>

theorem set_session_auth_missing_blob:
  assumes "get_home_page env s = (Inr home_page, s1)"
  shows "(re_search SESSION_OPEN SCRIPT_CLOSE home_page = None
            \<longrightarrow> set_session_auth env s = (Inl AttributeError, s1)) \<and>
         (embedded_json env SESSION_OPEN home_page = Inr v \<and>
          re_search CONFIG_OPEN SCRIPT_CLOSE home_page = None
            \<longrightarrow> set_session_auth env s = (Inl AttributeError, s1\<lparr>session_info := v\<rparr>)) \<and>
         sent s1 = sent s @ [(clock s, home_request s)] \<and> headers s1 = headers s"
  using assms get_home_page_result [OF assms]
  by (simp add: set_session_auth_def embedded_json_def)

lemma session_only_home_page_search:
  "re_search SESSION_OPEN SCRIPT_CLOSE session_only_home_page = Some demo_session_text"
  "re_search CONFIG_OPEN SCRIPT_CLOSE session_only_home_page = None"
  by code_simp+

theorem set_session_auth_missing_blob_witness:
  "fst (get_home_page (demo_env bare_home_page) (demo_state 4000)) = Inr bare_home_page \<and>
   re_search SESSION_OPEN SCRIPT_CLOSE bare_home_page = None \<and>
   fst (set_session_auth (demo_env bare_home_page) (demo_state 4000)) = Inl AttributeError \<and>
   fst (get_home_page (demo_env session_only_home_page) (demo_state 4000))
     = Inr session_only_home_page \<and>
   embedded_json (demo_env session_only_home_page) SESSION_OPEN session_only_home_page
     = Inr demo_session \<and>
   re_search CONFIG_OPEN SCRIPT_CLOSE session_only_home_page = None \<and>
   fst (set_session_auth (demo_env session_only_home_page) (demo_state 4000))
     = Inl AttributeError \<and>
   session_info (snd (set_session_auth (demo_env session_only_home_page) (demo_state 4000)))
     = demo_session \<and>
   headers (snd (set_session_auth (demo_env session_only_home_page) (demo_state 4000)))
     = headers (demo_state 4000) \<and>
   map (\<lambda>(t, rq). url rq)
     (sent (snd (set_session_auth (demo_env session_only_home_page) (demo_state 4000))))
     = [SPOTIFY_HOME_PAGE_URL]"
proof -
  let ?s = "demo_state 4000"
  let ?s1 = "?s\<lparr>clock := clock ?s + 0.1, sent := sent ?s @ [(clock ?s, home_request ?s)]\<rparr>"
  have h1: "get_home_page (demo_env bare_home_page) ?s = (Inr bare_home_page, ?s1)"
    by (rule demo_get_home_page)
  have h2: "get_home_page (demo_env session_only_home_page) ?s = (Inr session_only_home_page, ?s1)"
    by (rule demo_get_home_page)
  have j: "embedded_json (demo_env session_only_home_page) SESSION_OPEN session_only_home_page
      = Inr demo_session"
    by (simp add: embedded_json_def session_only_home_page_search demo_env_simps demo_loads_simps)
  from set_session_auth_missing_blob [OF h1, THEN conjunct1] bare_home_page_search(1)
  have a: "set_session_auth (demo_env bare_home_page) ?s = (Inl AttributeError, ?s1)"
    by (rule mp)
  from set_session_auth_missing_blob [OF h2, of demo_session, THEN conjunct2, THEN conjunct1]
    conjI [OF j session_only_home_page_search(2)]
  have b: "set_session_auth (demo_env session_only_home_page) ?s
      = (Inl AttributeError, ?s1\<lparr>session_info := demo_session\<rparr>)"
    by (rule mp)
  have c: "map (\<lambda>(t, rq). url rq) (sent (?s1\<lparr>session_info := demo_session\<rparr>))
      = [SPOTIFY_HOME_PAGE_URL]"
    by (simp add: demo_state_def home_request_def get_request_def)
  show ?thesis
    unfolding h1 h2 a b j fst_conv snd_conv c
    by (simp add: bare_home_page_search session_only_home_page_search)
qed

text \<open>
  Claim C8 as the specification words it names the typed condition
  \<open>AuthenticationBootstrapFailed\<close>.  On a landing page without the embedded documents
  the bootstrap raises \<^verbatim>\<open>AttributeError\<close>.
\<close>

theorem set_session_auth_missing_blob_counterexample:
  "re_search SESSION_OPEN SCRIPT_CLOSE bare_home_page = None \<and>
   re_search CONFIG_OPEN SCRIPT_CLOSE bare_home_page = None \<and>
   fst (set_session_auth (demo_env bare_home_page) (demo_state 4000)) = Inl AttributeError \<and>
   fst (set_session_auth (demo_env bare_home_page) (demo_state 4000))
     \<noteq> Inl AuthenticationBootstrapFailed"
  by (simp add: set_session_auth_def demo_get_home_page embedded_json_def bare_home_page_search)

subsection \<open>Status 404\<close>

text \<open>
  Claim C5.  After \<^verbatim>\<open>_refresh_session_auth\<close> has returned, a response with status
  404 to the lyrics request makes \<^verbatim>\<open>get_lyrics\<close> return \<^verbatim>\<open>None\<close>, and a response
  with status 404 to the metadata request makes \<^verbatim>\<open>get_track\<close> raise
  \<open>RemoteRequestFailed\<close> with that status.
\<close>

theorem not_found_lyrics_absent_track_fails:
  assumes "refresh_session_auth env s = (Inr (), s1)"
  shows "(session_get env (LYRICS_API_URL track_id) s1 = (Inr response, s2) \<and>
          status_code response = 404
            \<longrightarrow> get_lyrics env track_id s = (Inr None, s2)) \<and>
         (session_get env (METADATA_API_URL ''tracks'' track_id) s1 = (Inr response, s2) \<and>
          status_code response = 404
            \<longrightarrow> get_track env track_id s = (Inl (RemoteRequestFailed 404), s2))"
  using assms by (simp add: get_lyrics_def get_track_def check_response_def)

theorem not_found_lyrics_absent_track_fails_witness:
  "refresh_session_auth (demo_env demo_home_page) (demo_state 10) = (Inr (), demo_state 10) \<and>
   fst (session_get (demo_env demo_home_page) (LYRICS_API_URL ''T'') (demo_state 10))
     = Inr \<lparr>status_code = 404, resp_text = ''Not found''\<rparr> \<and>
   fst (get_lyrics (demo_env demo_home_page) ''T'' (demo_state 10)) = Inr None \<and>
   fst (session_get (demo_env demo_home_page) (METADATA_API_URL ''tracks'' ''T'') (demo_state 10))
     = Inr \<lparr>status_code = 404, resp_text = ''Not found''\<rparr> \<and>
   fst (get_track (demo_env demo_home_page) ''T'' (demo_state 10))
     = Inl (RemoteRequestFailed 404)"
proof -
  let ?E = "demo_env demo_home_page"
  let ?s = "demo_state 10"
  let ?r = "\<lparr>status_code = 404, resp_text = ''Not found''\<rparr>"
  have "float_lt_int (timestamp_now ?s) 3600000"
    by (rule token_valid) (simp_all add: demo_state_def)
  then have r: "refresh_session_auth ?E ?s = (Inr (), ?s)"
    by (simp add: refresh_session_auth_cases demo_state_expire)
  have l: "session_get ?E (LYRICS_API_URL ''T'') ?s = (Inr ?r, snd (session_get ?E (LYRICS_API_URL ''T'') ?s))
      \<and> status_code ?r = 404"
    by (simp add: demo_session_get)
  have m: "session_get ?E (METADATA_API_URL ''tracks'' ''T'') ?s
      = (Inr ?r, snd (session_get ?E (METADATA_API_URL ''tracks'' ''T'') ?s))
      \<and> status_code ?r = 404"
    by (simp add: demo_session_get)
  from not_found_lyrics_absent_track_fails [OF r, THEN conjunct1] l
  have a: "get_lyrics ?E ''T'' ?s = (Inr None, snd (session_get ?E (LYRICS_API_URL ''T'') ?s))"
    by (rule mp)
  from not_found_lyrics_absent_track_fails [OF r, THEN conjunct2] m
  have b: "get_track ?E ''T'' ?s
      = (Inl (RemoteRequestFailed 404), snd (session_get ?E (METADATA_API_URL ''tracks'' ''T'') ?s))"
    by (rule mp)
  show ?thesis by (simp add: r a b) (simp add: demo_session_get)
qed

section \<open>Properties of the collection extender\<close>

lemma extend_loop_done: "extend_loop env consume acc JNull s = Some (acc, Inr (), s)"
  by (subst extend_loop.simps) simp










lemma demo_next:
  "getitem demo_page2 ''next'' = Inr (JStr demo_page3_url)"
  "getitem demo_page3 ''next'' = Inr JNull"
  "getitem demo_broken_page ''next'' = Inr (JStr demo_missing_url)"
  by (simp_all add: demo_page2_def demo_page3_def demo_broken_page_def)



section \<open>Properties of the album fetcher\<close>

subsection \<open>The extender leaves the session alone\<close>









subsection \<open>Requests sent by a call\<close>







subsection \<open>Hits and misses\<close>





subsection \<open>How long an entry stays in the cache\<close>















subsection \<open>The album of the small world\<close>

lemma demo_add_items:
  "add_items acc demo_page2 = Inr (acc @ [JStr ''t2''])"
  "add_items acc demo_page3 = Inr (acc @ [JStr ''t3''])"
  by (simp_all add: add_items_def demo_page2_def demo_page3_def)

lemma demo_extend_loop:
  "extend_loop (demo_env page) add_items [] (JStr demo_page2_url) s
     = Some ([JStr ''t2'', JStr ''t3''], Inr (),
        s\<lparr>clock := clock s + 0.1 + 0.5 + 0.1 + 0.5,
          sent := sent s @ [(clock s, get_request s demo_page2_url),
                            (clock s + 0.1 + 0.5, get_request s demo_page3_url)]\<rparr>)"
  by (simp add: extend_loop.simps [of _ _ _ "JStr demo_page2_url"]
      extend_loop.simps [of _ _ _ "JStr demo_page3_url"] extend_loop_done
      demo_session_get check_response_def response_json_def demo_env_simps demo_loads_simps
      demo_add_items demo_next EXTEND_TRACK_COLLECTION_WAIT_TIME_def get_request_def)

lemma demo_get_album_wrapped:
  assumes "timestamp_session_expire s = Inr e" "float_lt_int (timestamp_now s) e"
  shows "get_album_wrapped (demo_env page) ''A'' True s
     = Some (Inr demo_full_album,
        s\<lparr>clock := clock s + 0.1 + 0.1 + 0.5 + 0.1 + 0.5,
          sent := sent s @ [(clock s, get_request s (METADATA_API_URL ''albums'' ''A'')),
                            (clock s + 0.1, get_request s demo_page2_url),
                            (clock s + 0.1 + 0.1 + 0.5, get_request s demo_page3_url)]\<rparr>)"
proof -
  have r: "refresh_session_auth (demo_env page) s = (Inr (), s)"
    using assms by (simp add: refresh_session_auth_cases)
  have g: "getitem demo_album ''tracks''
      = Inr (JObj [(''items'', JArr [JStr ''t1'']), (''next'', JStr demo_page2_url)])"
    by (simp add: demo_album_def)
  show ?thesis
    by (simp add: get_album_wrapped_def r demo_session_get check_response_def response_json_def
        demo_env_simps demo_loads_simps g extend_track_collection_def demo_extend_loop
        get_request_def)
      (simp add: demo_album_def demo_full_album_def)
qed

lemma demo_get_album_miss:
  assumes "map_of (cache s) c = None" "call_args c = (''A'', True)"
    and "timestamp_session_expire s = Inr e" "float_lt_int (timestamp_now s) e"
  shows "get_album (demo_env page) c s
     = Some (Inr demo_full_album,
        s\<lparr>clock := clock s + 0.1 + 0.1 + 0.5 + 0.1 + 0.5,
          sent := sent s @ [(clock s, get_request s (METADATA_API_URL ''albums'' ''A'')),
                            (clock s + 0.1, get_request s demo_page2_url),
                            (clock s + 0.1 + 0.1 + 0.5, get_request s demo_page3_url)],
          cache := lru_store (cache s) c demo_full_album\<rparr>)"
  using assms(1,2) by (simp add: get_album_def demo_get_album_wrapped [OF assms(3,4)])

lemma trace_append: "trace (s\<lparr>sent := xs @ ys\<rparr>) = trace (s\<lparr>sent := xs\<rparr>) @ trace (s\<lparr>sent := ys\<rparr>)"
  by (simp add: trace_def)



subsection \<open>The extender and an expired token\<close>

lemma demo_get_gid_metadata_expired:
  assumes "timestamp_session_expire s = Inr e" "\<not> float_lt_int (timestamp_now s) e"
  shows "trace (snd (get_gid_metadata (demo_env demo_home_page) gid media_type s))
     = trace s @ [(clock s, SPOTIFY_HOME_PAGE_URL, hdr_get (headers s) ''Authorization''),
                  (clock s + 0.1, GID_METADATA_API_URL gid media_type, Some ''Bearer NEW'')]"
proof -
  have r: "refresh_session_auth (demo_env demo_home_page) s
      = set_session_auth (demo_env demo_home_page) s"
    using assms by (simp add: refresh_session_auth_cases)
  show ?thesis
    by (simp add: get_gid_metadata_def r demo_set_session_auth fetch_state session_get_sent
        trace_def home_request_def get_request_def hdr_get_update)
qed

text \<open>
  Claim C1 on a concrete run.  The token of the session expires at 3600000 ms.  A call
  \<^verbatim>\<open>get_album("A")\<close> that starts at 3599.8 s finds the token valid and
  requests the album; the extender requests the second page at 3599.9 s and, after the
  pause, the third page at 3600.5 s, when the token has expired (the comparison of
  \<^verbatim>\<open>_refresh_session_auth\<close> holds at 3599.8 s and fails at 3600.5 s): the request
  carries the old token, and the landing page is not fetched.  A fetcher called at that time,
  \<^verbatim>\<open>get_gid_metadata\<close>, fetches the landing page first and sends its request with the
  new token.
\<close>

theorem extender_requests_with_expired_token:
  "timestamp_session_expire (demo_state 3599.8) = Inr 3600000 \<and>
   map_option (\<lambda>(r, s). (r, trace s))
     (get_album (demo_env demo_home_page) (Pos1 ''A'') (demo_state 3599.8))
     = Some (Inr demo_full_album,
         [(3599.8, METADATA_API_URL ''albums'' ''A'', Some ''Bearer OLD''),
          (3599.9, demo_page2_url, Some ''Bearer OLD''),
          (3600.5, demo_page3_url, Some ''Bearer OLD'')]) \<and>
   real_of_int 3600000 \<le> 3600.5 * 1000 \<and>
   float_lt_int (timestamp_now (demo_state 3599.8)) 3600000 \<and>
   \<not> float_lt_int (timestamp_now (demo_state 3600.5)) 3600000 \<and>
   trace (snd (get_gid_metadata (demo_env demo_home_page) ''00'' ''track'' (demo_state 3600.5)))
     = [(3600.5, SPOTIFY_HOME_PAGE_URL, Some ''Bearer OLD''),
        (3600.6, GID_METADATA_API_URL ''00'' ''track'', Some ''Bearer NEW'')]"
proof -
  let ?E = "demo_env demo_home_page"
  let ?s0 = "demo_state 3599.8"
  have e0: "timestamp_session_expire ?s0 = Inr 3600000" by (rule demo_state_expire)
  have v0: "float_lt_int (timestamp_now ?s0) 3600000"
    by (rule token_valid) (simp_all add: demo_state_def)
  have x: "\<not> float_lt_int (timestamp_now (demo_state 3600.5)) 3600000"
    by (rule token_expired) (simp add: demo_state_def)
  have m0: "map_of (cache ?s0) (Pos1 ''A'') = None" by (simp add: demo_state_def)
  note g1 = demo_get_album_miss [OF m0 _ e0 v0, of demo_home_page, simplified]
  have a: "map_option (\<lambda>(r, s). (r, trace s)) (get_album ?E (Pos1 ''A'') ?s0)
      = Some (Inr demo_full_album,
         [(3599.8, METADATA_API_URL ''albums'' ''A'', Some ''Bearer OLD''),
          (3599.9, demo_page2_url, Some ''Bearer OLD''),
          (3600.5, demo_page3_url, Some ''Bearer OLD'')])"
    by (simp add: g1 trace_def) (simp add: demo_state_def get_request_def lower_def)
  have b: "trace (snd (get_gid_metadata ?E ''00'' ''track'' (demo_state 3600.5)))
     = [(3600.5, SPOTIFY_HOME_PAGE_URL, Some ''Bearer OLD''),
        (3600.6, GID_METADATA_API_URL ''00'' ''track'', Some ''Bearer NEW'')]"
    using demo_get_gid_metadata_expired [OF demo_state_expire x, of "''00''" "''track''"]
    by (simp add: demo_state_def trace_def lower_def)
  from e0 v0 x a b show ?thesis by simp
qed

subsection \<open>Keys and capacity of the cache\<close>















subsection \<open>Eviction in a world of many albums\<close>










end
